theory Spec2Isabelle
  imports Complex_Main
begin

section \<open>camtrack: the motion smoothers and the framing rectangle\<close>

text \<open>
  A shallow embedding of the smoothing classes of \<^verbatim>\<open>camtrack.cpp\<close>:
  \<^verbatim>\<open>SmoothMoverLPF\<close>, \<^verbatim>\<open>SmoothMoverBoundedAccel\<close>, \<^verbatim>\<open>SmoothMoverCompose\<close>,
  \<^verbatim>\<open>SmoothMovingRect\<close> and \<^verbatim>\<open>rectBound\<close>.

  The classes are templates over the scalar type \<^verbatim>\<open>T\<close>, and the source is embedded
  twice. This first part instantiates \<^verbatim>\<open>T\<close> with the real numbers: every operation is
  exact. It carries what does not depend on rounding: which stages a value passes, which
  edge a test compares with, which coordinate a block moves, each checked at inputs that
  binary32 represents and computes exactly. Where the real arithmetic has no result (the
  square root of a negative number, a division by a zero aspect) this part returns the
  error \<open>NotANumber\<close>. The second part instantiates \<^verbatim>\<open>T\<close> with binary32, the
  program's \<^verbatim>\<open>float\<close>, and carries what rounding decides. A failing \<^verbatim>\<open>assert\<close> is
  the error \<open>AssertionFailed\<close> in both.

  C++ member names end in an underscore, which is no legal name here; the record fields
  carry a prefix instead (\<open>lpf_s\<close> for \<^verbatim>\<open>SmoothMoverLPF::s_\<close>, \<open>ba_s\<close> and \<open>ba_ds\<close>
  for \<^verbatim>\<open>SmoothMoverBoundedAccel::s_\<close> and \<^verbatim>\<open>ds_\<close>, and so on).
\<close>

datatype error = AssertionFailed | NotANumber

subsection \<open>The tuning rates\<close>

text \<open>
  The globals \<^verbatim>\<open>kLPFSlewRate\<close>, \<^verbatim>\<open>kBoundedMaxSlew\<close> and \<^verbatim>\<open>kBoundedMaxSlewAccel\<close>
  are set in \<^verbatim>\<open>main\<close> and read by the update operators; the model passes them
  as an explicit parameter.
\<close>

record rates =
  kLPFSlewRate :: real
  kBoundedMaxSlew :: real
  kBoundedMaxSlewAccel :: real

subsection \<open>SmoothMoverLPF\<close>

record SmoothMoverLPF =
  lpf_s :: real

definition SmoothMoverLPF_init :: "real \<Rightarrow> SmoothMoverLPF" where
  "SmoothMoverLPF_init initial = \<lparr>lpf_s = initial\<rparr>"

definition SmoothMoverLPF_value :: "SmoothMoverLPF \<Rightarrow> real" where
  "SmoothMoverLPF_value m = lpf_s m"

definition SmoothMoverLPF_update :: "rates \<Rightarrow> SmoothMoverLPF \<Rightarrow> real \<Rightarrow> SmoothMoverLPF" where
  "SmoothMoverLPF_update k m target =
     m\<lparr>lpf_s := lpf_s m * (1 - kLPFSlewRate k) + target * kLPFSlewRate k\<rparr>"

text \<open>The same target fed \<open>n\<close> times.\<close>

primrec SmoothMoverLPF_repeat :: "rates \<Rightarrow> SmoothMoverLPF \<Rightarrow> real \<Rightarrow> nat \<Rightarrow> SmoothMoverLPF" where
  "SmoothMoverLPF_repeat k m target 0 = m"
| "SmoothMoverLPF_repeat k m target (Suc n) =
     SmoothMoverLPF_update k (SmoothMoverLPF_repeat k m target n) target"

subsection \<open>SmoothMoverBoundedAccel\<close>

record SmoothMoverBoundedAccel =
  ba_s :: real
  ba_ds :: real

text \<open>
  The constructor's initialiser list is \<^verbatim>\<open>s_(initial)\<close> alone: \<^verbatim>\<open>ds_\<close> is left
  uninitialised. What it then holds is not fixed by the program, so the model takes
  it as a second argument.
\<close>

definition SmoothMoverBoundedAccel_init :: "real \<Rightarrow> real \<Rightarrow> SmoothMoverBoundedAccel" where
  "SmoothMoverBoundedAccel_init initial indeterminate = \<lparr>ba_s = initial, ba_ds = indeterminate\<rparr>"

definition SmoothMoverBoundedAccel_value :: "SmoothMoverBoundedAccel \<Rightarrow> real" where
  "SmoothMoverBoundedAccel_value m = ba_s m"

definition SmoothMoverBoundedAccel_update ::
    "rates \<Rightarrow> SmoothMoverBoundedAccel \<Rightarrow> real \<Rightarrow> error + SmoothMoverBoundedAccel" where
  "SmoothMoverBoundedAccel_update k m target =
     (if target < ba_s m then
        (let ds1 = ba_ds m - kBoundedMaxSlewAccel k;
             ds2 = (if ds1 < - kBoundedMaxSlew k then - kBoundedMaxSlew k else ds1);
             ds3 = (if ba_s m + ds2 < target then target - ba_s m else ds2);
             s1 = ba_s m + ds3
         in if s1 \<ge> target then Inr \<lparr>ba_s = s1, ba_ds = ds3\<rparr> else Inl AssertionFailed)
      else if target > ba_s m then
        (let ds1 = ba_ds m + kBoundedMaxSlewAccel k;
             ds2 = (if ds1 > kBoundedMaxSlew k then kBoundedMaxSlew k else ds1);
             ds3 = (if ba_s m + ds2 > target then ba_s m - target else ds2);
             s1 = ba_s m + ds3
         in if s1 \<le> target then Inr \<lparr>ba_s = s1, ba_ds = ds3\<rparr> else Inl AssertionFailed)
      else Inr m)"

text \<open>
  The velocity the update projects before its overshoot test: \<^verbatim>\<open>ds_\<close> after the
  acceleration step and the clamp to the maximal slew.
\<close>

definition projected_ds :: "rates \<Rightarrow> SmoothMoverBoundedAccel \<Rightarrow> real \<Rightarrow> real" where
  "projected_ds k m target =
     (if target < ba_s m then
        (let ds1 = ba_ds m - kBoundedMaxSlewAccel k
         in if ds1 < - kBoundedMaxSlew k then - kBoundedMaxSlew k else ds1)
      else if target > ba_s m then
        (let ds1 = ba_ds m + kBoundedMaxSlewAccel k
         in if ds1 > kBoundedMaxSlew k then kBoundedMaxSlew k else ds1)
      else ba_ds m)"

subsection \<open>SmoothMoverCompose\<close>

text \<open>
  The one instantiation the program uses:
  \<^verbatim>\<open>SmoothMoverCompose<SmoothMoverBoundedAccel<T>, SmoothMoverLPF<T>, T>\<close>.
\<close>

record SmoothMoverCompose =
  comp_r :: SmoothMoverBoundedAccel
  comp_s :: SmoothMoverLPF

definition SmoothMoverCompose_init :: "real \<Rightarrow> real \<Rightarrow> SmoothMoverCompose" where
  "SmoothMoverCompose_init initial indeterminate =
     \<lparr>comp_r = SmoothMoverBoundedAccel_init initial indeterminate,
      comp_s = SmoothMoverLPF_init initial\<rparr>"

definition SmoothMoverCompose_value :: "SmoothMoverCompose \<Rightarrow> real" where
  "SmoothMoverCompose_value c = SmoothMoverLPF_value (comp_s c)"

definition SmoothMoverCompose_update ::
    "rates \<Rightarrow> SmoothMoverCompose \<Rightarrow> real \<Rightarrow> error + SmoothMoverCompose" where
  "SmoothMoverCompose_update k c target =
     (case SmoothMoverBoundedAccel_update k (comp_r c) target of
        Inl e \<Rightarrow> Inl e
      | Inr r \<Rightarrow>
          Inr \<lparr>comp_r = r,
               comp_s = SmoothMoverLPF_update k (comp_s c) (SmoothMoverBoundedAccel_value r)\<rparr>)"

subsection \<open>Rectangles\<close>

text \<open>\<^verbatim>\<open>cv::Rect_<T>\<close>: the top left corner and the extent.\<close>

record 'a Rect =
  rect_x :: 'a
  rect_y :: 'a
  rect_width :: 'a
  rect_height :: 'a

definition rect_right :: "'a::plus Rect \<Rightarrow> 'a" where
  "rect_right r = rect_x r + rect_width r"

definition rect_bottom :: "'a::plus Rect \<Rightarrow> 'a" where
  "rect_bottom r = rect_y r + rect_height r"

definition center_x :: "real Rect \<Rightarrow> real" where
  "center_x r = rect_x r + rect_width r / 2"

definition center_y :: "real Rect \<Rightarrow> real" where
  "center_y r = rect_y r + rect_height r / 2"

definition degenerate :: "real Rect \<Rightarrow> bool" where
  "degenerate r = (rect_width r \<le> 0 \<or> rect_height r \<le> 0)"

definition contained_in :: "real Rect \<Rightarrow> real Rect \<Rightarrow> bool" where
  "contained_in r b =
     (rect_x b \<le> rect_x r \<and> rect_y b \<le> rect_y r \<and>
      rect_right r \<le> rect_right b \<and> rect_bottom r \<le> rect_bottom b)"

subsection \<open>SmoothMovingRect\<close>

record SmoothMovingRect =
  smr_bounds :: "real Rect"
  smr_aspect :: real
  smr_centerX :: SmoothMoverCompose
  smr_centerY :: SmoothMoverCompose
  smr_size :: SmoothMoverLPF

text \<open>
  The constructor. The two last arguments are what the uninitialised \<^verbatim>\<open>ds_\<close> of the
  two centre chains hold.
\<close>

definition SmoothMovingRect_init :: "real Rect \<Rightarrow> real \<Rightarrow> real \<Rightarrow> real \<Rightarrow> SmoothMovingRect" where
  "SmoothMovingRect_init bounds aspect indeterminateX indeterminateY =
     \<lparr>smr_bounds = bounds,
      smr_aspect = aspect,
      smr_centerX = SmoothMoverCompose_init (rect_x bounds + rect_width bounds / 2) indeterminateX,
      smr_centerY = SmoothMoverCompose_init (rect_y bounds + rect_height bounds / 2) indeterminateY,
      smr_size = SmoothMoverLPF_init (rect_width bounds * rect_height bounds)\<rparr>"

text \<open>\<^verbatim>\<open>SmoothMovingRect::operator<<\<close>, the controller's \<open>observe\<close>.\<close>

definition observe :: "rates \<Rightarrow> SmoothMovingRect \<Rightarrow> real Rect \<Rightarrow> error + SmoothMovingRect" where
  "observe k c target =
     (case SmoothMoverCompose_update k (smr_centerX c) (rect_x target + rect_width target / 2) of
        Inl e \<Rightarrow> Inl e
      | Inr cx \<Rightarrow>
          (case SmoothMoverCompose_update k (smr_centerY c) (rect_y target + rect_height target / 2) of
             Inl e \<Rightarrow> Inl e
           | Inr cy \<Rightarrow>
               Inr (c\<lparr>smr_centerX := cx,
                      smr_centerY := cy,
                      smr_size := SmoothMoverLPF_update k (smr_size c)
                                    (rect_width target * rect_height target)\<rparr>)))"

text \<open>A history of \<open>observe\<close> calls, stopping at the first failing assertion.\<close>

fun observe_all :: "rates \<Rightarrow> SmoothMovingRect \<Rightarrow> real Rect list \<Rightarrow> error + SmoothMovingRect" where
  "observe_all k c [] = Inr c"
| "observe_all k c (t # ts) =
     (case observe k c t of Inl e \<Rightarrow> Inl e | Inr c' \<Rightarrow> observe_all k c' ts)"

text \<open>
  \<^verbatim>\<open>SmoothMovingRect::scale\<close>, the controller's \<open>currentCrop\<close>. The rectangle before
  the shrinking is \<open>scale_start\<close>; the four \<^verbatim>\<open>if\<close> blocks that shrink it into the
  bounds follow in the order of the source.
\<close>

definition scale_start :: "SmoothMovingRect \<Rightarrow> real \<Rightarrow> real \<Rightarrow> error + real Rect" where
  "scale_start c factor verticalPositioning =
     (let size = SmoothMoverLPF_value (smr_size c) * factor;
          aspect = smr_aspect c
      in if aspect = 0 \<or> size / aspect < 0 then Inl NotANumber
         else
           (let height = sqrt (size / aspect);
                width = aspect * height;
                x = SmoothMoverCompose_value (smr_centerX c) - (width / 2);
                y = SmoothMoverCompose_value (smr_centerY c) - (height * verticalPositioning)
            in Inr \<lparr>rect_x = x, rect_y = y, rect_width = width, rect_height = height\<rparr>))"

definition shrink_left :: "real \<Rightarrow> real Rect \<Rightarrow> real Rect" where
  "shrink_left aspect r =
     (if rect_x r < 0 then
        (let delta = - rect_x r
         in \<lparr>rect_x = 0,
             rect_y = rect_y r,
             rect_width = rect_width r - 2 * delta,
             rect_height = rect_height r - 2 * delta / aspect\<rparr>)
      else r)"

definition shrink_top :: "real \<Rightarrow> real Rect \<Rightarrow> real Rect" where
  "shrink_top aspect r =
     (if rect_y r < 0 then
        (let delta = - rect_y r
         in \<lparr>rect_x = rect_x r,
             rect_y = 0,
             rect_width = rect_width r - 2 * delta * aspect,
             rect_height = rect_height r - 2 * delta\<rparr>)
      else r)"

definition shrink_right :: "real Rect \<Rightarrow> real \<Rightarrow> real Rect \<Rightarrow> real Rect" where
  "shrink_right bounds aspect r =
     (let right = rect_x r + rect_width r;
          bounds_right = rect_x bounds + rect_width bounds
      in if right > bounds_right then
           (let delta = right - bounds_right
            in \<lparr>rect_x = rect_x r + delta,
                rect_y = rect_y r + delta / aspect,
                rect_width = rect_width r - 2 * delta,
                rect_height = rect_height r - 2 * delta / aspect\<rparr>)
         else r)"

definition shrink_bottom :: "real Rect \<Rightarrow> real \<Rightarrow> real Rect \<Rightarrow> real Rect" where
  "shrink_bottom bounds aspect r =
     (let bottom = rect_y r + rect_height r;
          bounds_bottom = rect_y bounds + rect_height bounds
      in if bottom > bounds_bottom then
           (let delta = bottom - bounds_bottom
            in \<lparr>rect_x = rect_x r + delta * aspect,
                rect_y = rect_y r + delta,
                rect_width = rect_width r - 2 * delta * aspect,
                rect_height = rect_height r - 2 * delta\<rparr>)
         else r)"

definition scale :: "SmoothMovingRect \<Rightarrow> real \<Rightarrow> real \<Rightarrow> error + real Rect" where
  "scale c factor verticalPositioning =
     (case scale_start c factor verticalPositioning of
        Inl e \<Rightarrow> Inl e
      | Inr r \<Rightarrow>
          Inr (shrink_bottom (smr_bounds c) (smr_aspect c)
                (shrink_right (smr_bounds c) (smr_aspect c)
                  (shrink_top (smr_aspect c)
                    (shrink_left (smr_aspect c) r)))))"

subsection \<open>rectBound\<close>

text \<open>
  Modelled from the spec: \<^verbatim>\<open>cv::Rect_<T>::operator|=\<close> belongs to the imaging library
  and is not part of the source file. The specification gives the union as the
  component-wise minimum of left and top and maximum of right and bottom.
\<close>

definition rect_union :: "'a::linordered_ab_group_add Rect \<Rightarrow> 'a Rect \<Rightarrow> 'a Rect" where
  "rect_union a b =
     (let x1 = min (rect_x a) (rect_x b);
          y1 = min (rect_y a) (rect_y b)
      in \<lparr>rect_x = x1,
          rect_y = y1,
          rect_width = max (rect_x a + rect_width a) (rect_x b + rect_width b) - x1,
          rect_height = max (rect_y a + rect_height a) (rect_y b + rect_height b) - y1\<rparr>)"

text \<open>The loop of \<^verbatim>\<open>rectBound\<close> from index 1 on, \<open>rv\<close> being the accumulator.\<close>

fun rectBound_loop :: "'a::linordered_ab_group_add Rect \<Rightarrow> 'a Rect list \<Rightarrow> 'a Rect" where
  "rectBound_loop rv [] = rv"
| "rectBound_loop rv (r # rs) = rectBound_loop (rect_union rv r) rs"

definition rectBound :: "'a::linordered_ab_group_add Rect list \<Rightarrow> error + 'a Rect" where
  "rectBound rects =
     (case rects of
        [] \<Rightarrow> Inl AssertionFailed
      | r # rs \<Rightarrow> Inr (rectBound_loop r rs))"

subsection \<open>The size pipeline as the specification words it\<close>

text \<open>
  The specification describes the size pipeline as a third composed chain, built and fed
  like the two centre chains. These two definitions follow its words, to be compared
  with what \<open>SmoothMovingRect_init\<close> and \<open>observe\<close> do with \<open>smr_size\<close>.
\<close>

definition size_chain_spec_init :: "real Rect \<Rightarrow> real \<Rightarrow> SmoothMoverCompose" where
  "size_chain_spec_init bounds indeterminate =
     SmoothMoverCompose_init (rect_width bounds * rect_height bounds) indeterminate"

definition size_chain_spec_observe :: "rates \<Rightarrow> SmoothMoverCompose \<Rightarrow> real Rect \<Rightarrow> error + SmoothMoverCompose" where
  "size_chain_spec_observe k q target =
     SmoothMoverCompose_update k q (rect_width target * rect_height target)"

section \<open>The program on binary32\<close>

text \<open>
  The program instantiates the templates with \<^verbatim>\<open>prec\<close>, which is \<^verbatim>\<open>float\<close>. This part
  models that instantiation: IEEE 754 binary32 with rounding to nearest, ties to even,
  every operation rounded on its own (no fused multiply-add, no wider intermediate
  format). The definitions above, over the real numbers, are the same source with every
  operation exact; a claim that rounding decides is settled on the definitions of this
  part, which carry the suffix \<open>_f32\<close>.

  A value is \<open>Finite sign magnitude\<close> (the sign is \<open>True\<close> for a negative number, so that
  the two zeros are told apart), an infinity with its sign, or NaN.
\<close>

subsection \<open>binary32 arithmetic\<close>

datatype f32 = Finite bool real | Infinity bool | NaN

text \<open>
  \<open>ilog2 n a\<close> is the binary exponent of a positive \<open>a\<close>, the \<open>e\<close> with
  \<open>2 ^ e \<le> a < 2 ^ (e + 1)\<close>, found by halving or doubling at most \<open>n\<close> times.
\<close>

fun ilog2 :: "nat \<Rightarrow> real \<Rightarrow> int" where
  "ilog2 0 a = 0"
| "ilog2 (Suc n) a =
     (if 2 \<le> a then ilog2 n (a / 2) + 1
      else if a < 1 then ilog2 n (a * 2) - 1
      else 0)"

text \<open>The nearest integer, a tie going to the even one.\<close>

definition round_to_even :: "real \<Rightarrow> int" where
  "round_to_even y =
     (let f = \<lfloor>y\<rfloor>; d = y - of_int f
      in if d < 1/2 then f
         else if 1/2 < d then f + 1
         else if even f then f else f + 1)"

text \<open>
  Rounding a magnitude to binary32: 24 significant bits above the exponent \<open>- 126\<close>, the
  fixed spacing \<open>2 ^ - 149\<close> of the subnormal numbers below it, and infinity when the
  rounded magnitude reaches \<open>2 ^ 128\<close>. The \<open>300\<close> halvings or doublings cover every
  exponent that decides the result: a smaller magnitude rounds in the subnormal spacing,
  a larger one to infinity.
\<close>

definition f32_round :: "bool \<Rightarrow> real \<Rightarrow> f32" where
  "f32_round sign a =
     (if a = 0 then Finite sign 0
      else
        (let e = max (ilog2 300 a) (- 126);
             q = 2 powi (e - 23);
             r = of_int (round_to_even (a / q)) * q
         in if 2 ^ 128 \<le> r then Infinity sign else Finite sign r))"

text \<open>A literal or an integer constant converted to \<^verbatim>\<open>float\<close>.\<close>

definition f32_of_real :: "real \<Rightarrow> f32" where
  "f32_of_real x = f32_round (x < 0) \<bar>x\<bar>"

text \<open>The number a sign and a magnitude stand for.\<close>

definition signed :: "bool \<Rightarrow> real \<Rightarrow> real" where
  "signed sign a = (if sign then - a else a)"

text \<open>
  The operations \<^verbatim>\<open>-x\<close>, \<^verbatim>\<open>+\<close>, \<^verbatim>\<open>-\<close>, \<^verbatim>\<open>*\<close>, \<^verbatim>\<open>/\<close> and \<^verbatim>\<open>std::sqrt\<close>: the exact
  result rounded once, with the IEEE 754 rules for zeros, infinities and NaN.
\<close>

fun fneg :: "f32 \<Rightarrow> f32" where
  "fneg (Finite s a) = Finite (\<not> s) a"
| "fneg (Infinity s) = Infinity (\<not> s)"
| "fneg NaN = NaN"

fun fadd :: "f32 \<Rightarrow> f32 \<Rightarrow> f32" where
  "fadd NaN y = NaN"
| "fadd x NaN = NaN"
| "fadd (Infinity s) (Infinity t) = (if s = t then Infinity s else NaN)"
| "fadd (Infinity s) (Finite t b) = Infinity s"
| "fadd (Finite s a) (Infinity t) = Infinity t"
| "fadd (Finite s a) (Finite t b) =
     (let v = signed s a + signed t b
      in if v = 0 then Finite (s \<and> t) 0 else f32_round (v < 0) \<bar>v\<bar>)"

definition fsub :: "f32 \<Rightarrow> f32 \<Rightarrow> f32" where
  "fsub x y = fadd x (fneg y)"

fun fmul :: "f32 \<Rightarrow> f32 \<Rightarrow> f32" where
  "fmul NaN y = NaN"
| "fmul x NaN = NaN"
| "fmul (Infinity s) (Infinity t) = Infinity (s \<noteq> t)"
| "fmul (Infinity s) (Finite t b) = (if b = 0 then NaN else Infinity (s \<noteq> t))"
| "fmul (Finite s a) (Infinity t) = (if a = 0 then NaN else Infinity (s \<noteq> t))"
| "fmul (Finite s a) (Finite t b) = f32_round (s \<noteq> t) (a * b)"

fun fdiv :: "f32 \<Rightarrow> f32 \<Rightarrow> f32" where
  "fdiv NaN y = NaN"
| "fdiv x NaN = NaN"
| "fdiv (Infinity s) (Infinity t) = NaN"
| "fdiv (Infinity s) (Finite t b) = Infinity (s \<noteq> t)"
| "fdiv (Finite s a) (Infinity t) = Finite (s \<noteq> t) 0"
| "fdiv (Finite s a) (Finite t b) =
     (if b = 0 then (if a = 0 then NaN else Infinity (s \<noteq> t))
      else f32_round (s \<noteq> t) (a / b))"

fun fsqrt :: "f32 \<Rightarrow> f32" where
  "fsqrt NaN = NaN"
| "fsqrt (Infinity s) = (if s then NaN else Infinity False)"
| "fsqrt (Finite s a) =
     (if a = 0 then Finite s 0
      else if s then NaN
      else f32_round False (sqrt a))"

text \<open>
  The comparisons \<^verbatim>\<open><\<close>, \<^verbatim>\<open><=\<close>, \<^verbatim>\<open>>\<close> and \<^verbatim>\<open>>=\<close>: false as soon as one side is NaN, and
  the two zeros equal.
\<close>

fun flt :: "f32 \<Rightarrow> f32 \<Rightarrow> bool" where
  "flt NaN y = False"
| "flt x NaN = False"
| "flt (Infinity s) (Infinity t) = (s \<and> \<not> t)"
| "flt (Infinity s) (Finite t b) = s"
| "flt (Finite s a) (Infinity t) = (\<not> t)"
| "flt (Finite s a) (Finite t b) = (signed s a < signed t b)"

fun fle :: "f32 \<Rightarrow> f32 \<Rightarrow> bool" where
  "fle NaN y = False"
| "fle x NaN = False"
| "fle (Infinity s) (Infinity t) = (s \<or> \<not> t)"
| "fle (Infinity s) (Finite t b) = s"
| "fle (Finite s a) (Infinity t) = (\<not> t)"
| "fle (Finite s a) (Finite t b) = (signed s a \<le> signed t b)"

definition fgt :: "f32 \<Rightarrow> f32 \<Rightarrow> bool" where
  "fgt x y = flt y x"

definition fge :: "f32 \<Rightarrow> f32 \<Rightarrow> bool" where
  "fge x y = fle y x"

subsection \<open>The smoothers and the framing rectangle on binary32\<close>

text \<open>
  The source as above, each arithmetic operator and comparison replaced by its binary32
  counterpart. \<open>scale_f32\<close> needs no error value: where the real arithmetic has no
  result, binary32 has an infinity or NaN, and the code returns the rectangle all the same.
\<close>

record rates_f32 =
  kLPFSlewRate_f32 :: f32
  kBoundedMaxSlew_f32 :: f32
  kBoundedMaxSlewAccel_f32 :: f32

record SmoothMoverLPF_f32 =
  lpf_s_f32 :: f32

definition SmoothMoverLPF_init_f32 :: "f32 \<Rightarrow> SmoothMoverLPF_f32" where
  "SmoothMoverLPF_init_f32 initial = \<lparr>lpf_s_f32 = initial\<rparr>"

definition SmoothMoverLPF_value_f32 :: "SmoothMoverLPF_f32 \<Rightarrow> f32" where
  "SmoothMoverLPF_value_f32 m = lpf_s_f32 m"

definition SmoothMoverLPF_update_f32 ::
    "rates_f32 \<Rightarrow> SmoothMoverLPF_f32 \<Rightarrow> f32 \<Rightarrow> SmoothMoverLPF_f32" where
  "SmoothMoverLPF_update_f32 k m target =
     m\<lparr>lpf_s_f32 :=
         fadd (fmul (lpf_s_f32 m) (fsub (f32_of_real 1) (kLPFSlewRate_f32 k)))
              (fmul target (kLPFSlewRate_f32 k))\<rparr>"

record SmoothMoverBoundedAccel_f32 =
  ba_s_f32 :: f32
  ba_ds_f32 :: f32

definition SmoothMoverBoundedAccel_init_f32 :: "f32 \<Rightarrow> f32 \<Rightarrow> SmoothMoverBoundedAccel_f32" where
  "SmoothMoverBoundedAccel_init_f32 initial indeterminate =
     \<lparr>ba_s_f32 = initial, ba_ds_f32 = indeterminate\<rparr>"

definition SmoothMoverBoundedAccel_update_f32 ::
    "rates_f32 \<Rightarrow> SmoothMoverBoundedAccel_f32 \<Rightarrow> f32 \<Rightarrow> error + SmoothMoverBoundedAccel_f32" where
  "SmoothMoverBoundedAccel_update_f32 k m target =
     (if flt target (ba_s_f32 m) then
        (let ds1 = fsub (ba_ds_f32 m) (kBoundedMaxSlewAccel_f32 k);
             ds2 = (if flt ds1 (fneg (kBoundedMaxSlew_f32 k)) then fneg (kBoundedMaxSlew_f32 k) else ds1);
             ds3 = (if flt (fadd (ba_s_f32 m) ds2) target then fsub target (ba_s_f32 m) else ds2);
             s1 = fadd (ba_s_f32 m) ds3
         in if fge s1 target then Inr \<lparr>ba_s_f32 = s1, ba_ds_f32 = ds3\<rparr> else Inl AssertionFailed)
      else if fgt target (ba_s_f32 m) then
        (let ds1 = fadd (ba_ds_f32 m) (kBoundedMaxSlewAccel_f32 k);
             ds2 = (if fgt ds1 (kBoundedMaxSlew_f32 k) then kBoundedMaxSlew_f32 k else ds1);
             ds3 = (if fgt (fadd (ba_s_f32 m) ds2) target then fsub (ba_s_f32 m) target else ds2);
             s1 = fadd (ba_s_f32 m) ds3
         in if fle s1 target then Inr \<lparr>ba_s_f32 = s1, ba_ds_f32 = ds3\<rparr> else Inl AssertionFailed)
      else Inr m)"

record SmoothMoverCompose_f32 =
  comp_r_f32 :: SmoothMoverBoundedAccel_f32
  comp_s_f32 :: SmoothMoverLPF_f32

definition SmoothMoverCompose_init_f32 :: "f32 \<Rightarrow> f32 \<Rightarrow> SmoothMoverCompose_f32" where
  "SmoothMoverCompose_init_f32 initial indeterminate =
     \<lparr>comp_r_f32 = SmoothMoverBoundedAccel_init_f32 initial indeterminate,
      comp_s_f32 = SmoothMoverLPF_init_f32 initial\<rparr>"

definition SmoothMoverCompose_value_f32 :: "SmoothMoverCompose_f32 \<Rightarrow> f32" where
  "SmoothMoverCompose_value_f32 c = SmoothMoverLPF_value_f32 (comp_s_f32 c)"

record SmoothMovingRect_f32 =
  smr_bounds_f32 :: "f32 Rect"
  smr_aspect_f32 :: f32
  smr_centerX_f32 :: SmoothMoverCompose_f32
  smr_centerY_f32 :: SmoothMoverCompose_f32
  smr_size_f32 :: SmoothMoverLPF_f32

definition SmoothMovingRect_init_f32 :: "f32 Rect \<Rightarrow> f32 \<Rightarrow> f32 \<Rightarrow> f32 \<Rightarrow> SmoothMovingRect_f32" where
  "SmoothMovingRect_init_f32 bounds aspect indeterminateX indeterminateY =
     \<lparr>smr_bounds_f32 = bounds,
      smr_aspect_f32 = aspect,
      smr_centerX_f32 =
        SmoothMoverCompose_init_f32
          (fadd (rect_x bounds) (fdiv (rect_width bounds) (f32_of_real 2))) indeterminateX,
      smr_centerY_f32 =
        SmoothMoverCompose_init_f32
          (fadd (rect_y bounds) (fdiv (rect_height bounds) (f32_of_real 2))) indeterminateY,
      smr_size_f32 = SmoothMoverLPF_init_f32 (fmul (rect_width bounds) (rect_height bounds))\<rparr>"

definition scale_start_f32 :: "SmoothMovingRect_f32 \<Rightarrow> f32 \<Rightarrow> f32 \<Rightarrow> f32 Rect" where
  "scale_start_f32 c factor verticalPositioning =
     (let size = fmul (SmoothMoverLPF_value_f32 (smr_size_f32 c)) factor;
          aspect = smr_aspect_f32 c;
          height = fsqrt (fdiv size aspect);
          width = fmul aspect height;
          x = fsub (SmoothMoverCompose_value_f32 (smr_centerX_f32 c)) (fdiv width (f32_of_real 2));
          y = fsub (SmoothMoverCompose_value_f32 (smr_centerY_f32 c)) (fmul height verticalPositioning)
      in \<lparr>rect_x = x, rect_y = y, rect_width = width, rect_height = height\<rparr>)"

definition shrink_left_f32 :: "f32 \<Rightarrow> f32 Rect \<Rightarrow> f32 Rect" where
  "shrink_left_f32 aspect r =
     (if flt (rect_x r) (f32_of_real 0) then
        (let delta = fneg (rect_x r)
         in \<lparr>rect_x = f32_of_real 0,
             rect_y = rect_y r,
             rect_width = fsub (rect_width r) (fmul (f32_of_real 2) delta),
             rect_height = fsub (rect_height r) (fdiv (fmul (f32_of_real 2) delta) aspect)\<rparr>)
      else r)"

definition shrink_top_f32 :: "f32 \<Rightarrow> f32 Rect \<Rightarrow> f32 Rect" where
  "shrink_top_f32 aspect r =
     (if flt (rect_y r) (f32_of_real 0) then
        (let delta = fneg (rect_y r)
         in \<lparr>rect_x = rect_x r,
             rect_y = f32_of_real 0,
             rect_width = fsub (rect_width r) (fmul (fmul (f32_of_real 2) delta) aspect),
             rect_height = fsub (rect_height r) (fmul (f32_of_real 2) delta)\<rparr>)
      else r)"

definition shrink_right_f32 :: "f32 Rect \<Rightarrow> f32 \<Rightarrow> f32 Rect \<Rightarrow> f32 Rect" where
  "shrink_right_f32 bounds aspect r =
     (let right = fadd (rect_x r) (rect_width r);
          bounds_right = fadd (rect_x bounds) (rect_width bounds)
      in if fgt right bounds_right then
           (let delta = fsub right bounds_right
            in \<lparr>rect_x = fadd (rect_x r) delta,
                rect_y = fadd (rect_y r) (fdiv delta aspect),
                rect_width = fsub (rect_width r) (fmul (f32_of_real 2) delta),
                rect_height = fsub (rect_height r) (fdiv (fmul (f32_of_real 2) delta) aspect)\<rparr>)
         else r)"

definition shrink_bottom_f32 :: "f32 Rect \<Rightarrow> f32 \<Rightarrow> f32 Rect \<Rightarrow> f32 Rect" where
  "shrink_bottom_f32 bounds aspect r =
     (let bottom = fadd (rect_y r) (rect_height r);
          bounds_bottom = fadd (rect_y bounds) (rect_height bounds)
      in if fgt bottom bounds_bottom then
           (let delta = fsub bottom bounds_bottom
            in \<lparr>rect_x = fadd (rect_x r) (fmul delta aspect),
                rect_y = fadd (rect_y r) delta,
                rect_width = fsub (rect_width r) (fmul (fmul (f32_of_real 2) delta) aspect),
                rect_height = fsub (rect_height r) (fmul (f32_of_real 2) delta)\<rparr>)
         else r)"

definition scale_f32 :: "SmoothMovingRect_f32 \<Rightarrow> f32 \<Rightarrow> f32 \<Rightarrow> f32 Rect" where
  "scale_f32 c factor verticalPositioning =
     shrink_bottom_f32 (smr_bounds_f32 c) (smr_aspect_f32 c)
       (shrink_right_f32 (smr_bounds_f32 c) (smr_aspect_f32 c)
         (shrink_top_f32 (smr_aspect_f32 c)
           (shrink_left_f32 (smr_aspect_f32 c)
             (scale_start_f32 c factor verticalPositioning))))"

text \<open>A crop whose width or height is not positive.\<close>

definition degenerate_f32 :: "f32 Rect \<Rightarrow> bool" where
  "degenerate_f32 r = (fle (rect_width r) (f32_of_real 0) \<or> fle (rect_height r) (f32_of_real 0))"

text \<open>
  The crop as the specification words its error handling: a result of its own, "no valid
  frame", in place of a rectangle whose width or height is not positive.
\<close>

datatype no_frame = NoValidFrame

definition currentCrop_spec :: "SmoothMovingRect_f32 \<Rightarrow> f32 \<Rightarrow> f32 \<Rightarrow> no_frame + f32 Rect" where
  "currentCrop_spec c zoomFactor verticalBias =
     (let r = scale_f32 c zoomFactor verticalBias
      in if degenerate_f32 r then Inl NoValidFrame else Inr r)"

section \<open>Properties\<close>

subsection \<open>The low-pass stage\<close>

lemma lpf_update_diff:
  "lpf_s (SmoothMoverLPF_update k m target) - target = (1 - kLPFSlewRate k) * (lpf_s m - target)"
  by (simp add: SmoothMoverLPF_update_def algebra_simps)

lemma lpf_repeat_diff:
  "lpf_s (SmoothMoverLPF_repeat k m target n) - target = (1 - kLPFSlewRate k) ^ n * (lpf_s m - target)"
proof (induction n)
  case 0
  show ?case by simp
next
  case (Suc n)
  have "lpf_s (SmoothMoverLPF_repeat k m target (Suc n)) - target
      = (1 - kLPFSlewRate k) * (lpf_s (SmoothMoverLPF_repeat k m target n) - target)"
    by (simp add: lpf_update_diff)
  also have "\<dots> = (1 - kLPFSlewRate k) * ((1 - kLPFSlewRate k) ^ n * (lpf_s m - target))"
    by (simp only: Suc.IH)
  finally show ?case by simp
qed

text \<open>
  Over exact arithmetic: the low-pass update sets \<open>s\<close> to \<open>s * (1 - \<alpha>) + target * \<alpha>\<close>, and
  for \<open>0 < \<alpha> \<le> 1\<close> and one fixed target fed again and again the distance of \<open>s\<close> to the
  target shrinks by the factor \<open>1 - \<alpha>\<close> at every update, strictly as long as \<open>s\<close> has not
  reached the target, and \<open>s\<close> moves monotonically towards the target without passing it.
\<close>

lemma lpf_exact_approach:
  assumes pos: "0 < kLPFSlewRate k" and le1: "kLPFSlewRate k \<le> 1"
  shows "lpf_s (SmoothMoverLPF_update k m target)
           = lpf_s m * (1 - kLPFSlewRate k) + target * kLPFSlewRate k
       \<and> \<bar>lpf_s (SmoothMoverLPF_repeat k m target (Suc n)) - target\<bar>
           = (1 - kLPFSlewRate k) * \<bar>lpf_s (SmoothMoverLPF_repeat k m target n) - target\<bar>
       \<and> \<bar>lpf_s (SmoothMoverLPF_repeat k m target n) - target\<bar>
           = (1 - kLPFSlewRate k) ^ n * \<bar>lpf_s m - target\<bar>
       \<and> (lpf_s (SmoothMoverLPF_repeat k m target n) \<noteq> target \<longrightarrow>
            \<bar>lpf_s (SmoothMoverLPF_repeat k m target (Suc n)) - target\<bar>
              < \<bar>lpf_s (SmoothMoverLPF_repeat k m target n) - target\<bar>)
       \<and> (lpf_s m \<le> target \<longrightarrow>
            lpf_s (SmoothMoverLPF_repeat k m target n) \<le> lpf_s (SmoothMoverLPF_repeat k m target (Suc n))
            \<and> lpf_s (SmoothMoverLPF_repeat k m target (Suc n)) \<le> target)
       \<and> (target \<le> lpf_s m \<longrightarrow>
            target \<le> lpf_s (SmoothMoverLPF_repeat k m target (Suc n))
            \<and> lpf_s (SmoothMoverLPF_repeat k m target (Suc n)) \<le> lpf_s (SmoothMoverLPF_repeat k m target n))"
proof -
  define a where "a = kLPFSlewRate k"
  define d where "d = lpf_s (SmoothMoverLPF_repeat k m target n) - target"
  define d' where "d' = lpf_s (SmoothMoverLPF_repeat k m target (Suc n)) - target"
  have a: "0 \<le> 1 - a" "1 - a < 1" using pos le1 by (simp_all add: a_def)
  have step: "d' = (1 - a) * d"
    unfolding d_def d'_def a_def by (simp add: lpf_update_diff)
  have iter: "d = (1 - a) ^ n * (lpf_s m - target)"
    unfolding d_def a_def by (rule lpf_repeat_diff)
  have c1: "lpf_s (SmoothMoverLPF_update k m target)
           = lpf_s m * (1 - kLPFSlewRate k) + target * kLPFSlewRate k"
    by (simp add: SmoothMoverLPF_update_def)
  have c2: "\<bar>d'\<bar> = (1 - a) * \<bar>d\<bar>"
    using a by (simp add: step abs_mult)
  have c3: "\<bar>d\<bar> = (1 - a) ^ n * \<bar>lpf_s m - target\<bar>"
    using a by (simp add: iter abs_mult)
  have c4: "d \<noteq> 0 \<longrightarrow> \<bar>d'\<bar> < \<bar>d\<bar>"
  proof
    assume "d \<noteq> 0"
    then have "0 < \<bar>d\<bar>" by simp
    then have "(1 - a) * \<bar>d\<bar> < 1 * \<bar>d\<bar>"
      using a by (simp only: mult_strict_right_mono)
    then show "\<bar>d'\<bar> < \<bar>d\<bar>" by (simp add: c2)
  qed
  have c5: "lpf_s m \<le> target \<longrightarrow> d \<le> d' \<and> d' \<le> 0"
  proof
    assume "lpf_s m \<le> target"
    then have "d \<le> 0"
      using a by (simp add: iter mult_nonneg_nonpos)
    moreover from this have "(1 - a) * d \<le> 0" using a by (simp add: mult_nonneg_nonpos)
    moreover from \<open>d \<le> 0\<close> have "1 * d \<le> (1 - a) * d"
      using a by (intro mult_right_mono_neg) simp_all
    ultimately show "d \<le> d' \<and> d' \<le> 0" by (simp add: step)
  qed
  have c6: "target \<le> lpf_s m \<longrightarrow> 0 \<le> d' \<and> d' \<le> d"
  proof
    assume "target \<le> lpf_s m"
    then have "0 \<le> d"
      using a by (simp add: iter)
    moreover from this have "0 \<le> (1 - a) * d" using a by simp
    moreover from \<open>0 \<le> d\<close> have "(1 - a) * d \<le> 1 * d"
      using a by (intro mult_right_mono) simp_all
    ultimately show "0 \<le> d' \<and> d' \<le> d" by (simp add: step)
  qed
  show ?thesis
    using c1 c2 c3 c4 c5 c6 unfolding d_def d'_def a_def by simp
qed

subsection \<open>The bounded-acceleration stage\<close>

lemma ba_update_falling:
  assumes "target < ba_s m"
  shows "SmoothMoverBoundedAccel_update k m target =
           Inr (if ba_s m + projected_ds k m target < target
                then \<lparr>ba_s = target, ba_ds = target - ba_s m\<rparr>
                else \<lparr>ba_s = ba_s m + projected_ds k m target, ba_ds = projected_ds k m target\<rparr>)"
  using assms by (simp add: SmoothMoverBoundedAccel_update_def projected_ds_def Let_def)

lemma ba_update_rising:
  assumes "ba_s m < target"
  shows "SmoothMoverBoundedAccel_update k m target =
           Inr (if target < ba_s m + projected_ds k m target
                then \<lparr>ba_s = 2 * ba_s m - target, ba_ds = ba_s m - target\<rparr>
                else \<lparr>ba_s = ba_s m + projected_ds k m target, ba_ds = projected_ds k m target\<rparr>)"
  using assms by (simp add: SmoothMoverBoundedAccel_update_def projected_ds_def Let_def)

lemma ba_update_at_target:
  "SmoothMoverBoundedAccel_update k m (ba_s m) = Inr m"
  by (simp add: SmoothMoverBoundedAccel_update_def)

lemma projected_ds_bounded:
  assumes "0 \<le> kBoundedMaxSlewAccel k" and "\<bar>ba_ds m\<bar> \<le> kBoundedMaxSlew k"
  shows "\<bar>projected_ds k m target\<bar> \<le> kBoundedMaxSlew k"
  using assms by (auto simp add: projected_ds_def Let_def)

text \<open>
  C3. The claim: in both branches of the bounded-acceleration update, when the projected
  step \<open>s + ds\<close> would carry \<open>s\<close> past the target, \<open>s\<close> is the target after the update.
  The falling branch does so (\<open>ba_update_falling\<close>). The rising branch assigns
  \<^verbatim>\<open>ds_ = s_ - target\<close>, the negated distance, so \<open>s\<close> becomes \<open>2 * s - target\<close>
  (\<open>ba_update_rising\<close>): from \<open>s = 0\<close>, \<open>ds = 0\<close> with both rates \<open>1\<close> and the target
  \<open>1/2\<close>, the projected step reaches \<open>1\<close>, past the target, and the update ends at
  \<open>s = - 1/2\<close>.
\<close>

theorem ba_update_rising_overshoot_example:
  "ba_s \<lparr>ba_s = 0, ba_ds = 0\<rparr> < 1/2
   \<and> 1/2 < ba_s \<lparr>ba_s = 0, ba_ds = 0\<rparr>
        + projected_ds \<lparr>kLPFSlewRate = 1/2, kBoundedMaxSlew = 1, kBoundedMaxSlewAccel = 1\<rparr>
            \<lparr>ba_s = 0, ba_ds = 0\<rparr> (1/2)
   \<and> SmoothMoverBoundedAccel_update \<lparr>kLPFSlewRate = 1/2, kBoundedMaxSlew = 1, kBoundedMaxSlewAccel = 1\<rparr>
        \<lparr>ba_s = 0, ba_ds = 0\<rparr> (1/2)
      = Inr \<lparr>ba_s = - (1/2), ba_ds = - (1/2)\<rparr>"
  by (simp add: SmoothMoverBoundedAccel_update_def projected_ds_def Let_def)

text \<open>
  Over exact arithmetic: for a non-negative maximal acceleration and a state whose
  velocity is within the maximal slew, the update returns, \<open>s\<close> does not cross the target,
  a call with \<open>target = s\<close> changes nothing, and the velocity stays within the maximal slew.
\<close>

lemma ba_exact_no_overshoot:
  assumes "0 \<le> kBoundedMaxSlewAccel k" and "\<bar>ba_ds m\<bar> \<le> kBoundedMaxSlew k"
  shows "\<exists>m'. SmoothMoverBoundedAccel_update k m target = Inr m'
            \<and> (target < ba_s m \<longrightarrow> target \<le> ba_s m')
            \<and> (ba_s m < target \<longrightarrow> ba_s m' \<le> target)
            \<and> (target = ba_s m \<longrightarrow> m' = m)
            \<and> \<bar>ba_ds m'\<bar> \<le> kBoundedMaxSlew k"
proof -
  have p: "\<bar>projected_ds k m target\<bar> \<le> kBoundedMaxSlew k"
    using assms by (rule projected_ds_bounded)
  consider (falling) "target < ba_s m" | (rising) "ba_s m < target" | (rest) "target = ba_s m"
    by linarith
  then show ?thesis
  proof cases
    case falling
    show ?thesis
    proof (cases "ba_s m + projected_ds k m target < target")
      case True
      with falling p have "\<bar>target - ba_s m\<bar> \<le> kBoundedMaxSlew k" by linarith
      with falling True show ?thesis by (simp add: ba_update_falling)
    next
      case False
      with falling p show ?thesis by (simp add: ba_update_falling)
    qed
  next
    case rising
    show ?thesis
    proof (cases "target < ba_s m + projected_ds k m target")
      case True
      with rising p have "\<bar>ba_s m - target\<bar> \<le> kBoundedMaxSlew k" by linarith
      with rising True show ?thesis by (simp add: ba_update_rising)
    next
      case False
      with rising p show ?thesis by (simp add: ba_update_rising)
    qed
  next
    case rest
    with assms show ?thesis by (simp add: ba_update_at_target)
  qed
qed

lemma ba_assert_never_fails:
  "\<exists>m'. SmoothMoverBoundedAccel_update k m target = Inr m'"
proof -
  consider (falling) "target < ba_s m" | (rising) "ba_s m < target" | (rest) "target = ba_s m"
    by linarith
  then show ?thesis
  proof cases
    case falling
    then show ?thesis by (simp only: ba_update_falling) blast
  next
    case rising
    then show ?thesis by (simp only: ba_update_rising) blast
  next
    case rest
    then show ?thesis by (simp add: ba_update_at_target)
  qed
qed

lemma ba_first_update_falling:
  assumes "target < initial" and "0 < j"
  shows "map_sum id ba_s (SmoothMoverBoundedAccel_update k
           (SmoothMoverBoundedAccel_init initial (kBoundedMaxSlewAccel k + \<bar>kBoundedMaxSlew k\<bar> + j)) target)
         = Inr (initial + (\<bar>kBoundedMaxSlew k\<bar> + j))"
proof -
  let ?m = "SmoothMoverBoundedAccel_init initial (kBoundedMaxSlewAccel k + \<bar>kBoundedMaxSlew k\<bar> + j)"
  have s: "ba_s ?m = initial" by (simp add: SmoothMoverBoundedAccel_init_def)
  have "\<not> \<bar>kBoundedMaxSlew k\<bar> + j < - kBoundedMaxSlew k" using assms(2) by linarith
  then have p: "projected_ds k ?m target = \<bar>kBoundedMaxSlew k\<bar> + j"
    using assms(1) by (simp add: projected_ds_def SmoothMoverBoundedAccel_init_def)
  have "\<not> initial + (\<bar>kBoundedMaxSlew k\<bar> + j) < target" using assms by linarith
  then show ?thesis
    using assms(1) by (simp add: ba_update_falling s p)
qed

lemma ba_first_update_rising:
  assumes "initial < target" and "0 < j"
  shows "map_sum id ba_s (SmoothMoverBoundedAccel_update k
           (SmoothMoverBoundedAccel_init initial (- kBoundedMaxSlewAccel k - \<bar>kBoundedMaxSlew k\<bar> - j)) target)
         = Inr (initial + (- \<bar>kBoundedMaxSlew k\<bar> - j))"
proof -
  let ?m = "SmoothMoverBoundedAccel_init initial (- kBoundedMaxSlewAccel k - \<bar>kBoundedMaxSlew k\<bar> - j)"
  have s: "ba_s ?m = initial" by (simp add: SmoothMoverBoundedAccel_init_def)
  have "\<not> kBoundedMaxSlew k < - \<bar>kBoundedMaxSlew k\<bar> - j" using assms(2) by linarith
  then have p: "projected_ds k ?m target = - \<bar>kBoundedMaxSlew k\<bar> - j"
    using assms(1) by (simp add: projected_ds_def SmoothMoverBoundedAccel_init_def)
  have "\<not> target < initial + (- \<bar>kBoundedMaxSlew k\<bar> - j)" using assms by linarith
  then show ?thesis
    using assms(1) by (simp add: ba_update_rising s p)
qed

text \<open>
  C10. The constructor sets \<open>s\<close> alone, and the first update reads the velocity it left
  indeterminate: for every constructor argument and every target other than it, two
  instances constructed alike can end their first update at different \<open>s\<close>.
\<close>

theorem first_update_depends_on_indeterminate_ds:
  assumes "target \<noteq> initial"
  shows "\<exists>j1 j2.
           map_sum id ba_s (SmoothMoverBoundedAccel_update k (SmoothMoverBoundedAccel_init initial j1) target)
         \<noteq> map_sum id ba_s (SmoothMoverBoundedAccel_update k (SmoothMoverBoundedAccel_init initial j2) target)"
proof (cases "target < initial")
  case True
  have "map_sum id ba_s (SmoothMoverBoundedAccel_update k
           (SmoothMoverBoundedAccel_init initial (kBoundedMaxSlewAccel k + \<bar>kBoundedMaxSlew k\<bar> + 1)) target)
      \<noteq> map_sum id ba_s (SmoothMoverBoundedAccel_update k
           (SmoothMoverBoundedAccel_init initial (kBoundedMaxSlewAccel k + \<bar>kBoundedMaxSlew k\<bar> + 2)) target)"
    using True by (simp add: ba_first_update_falling)
  then show ?thesis by blast
next
  case False
  with assms have up: "initial < target" by simp
  have "map_sum id ba_s (SmoothMoverBoundedAccel_update k
           (SmoothMoverBoundedAccel_init initial (- kBoundedMaxSlewAccel k - \<bar>kBoundedMaxSlew k\<bar> - 1)) target)
      \<noteq> map_sum id ba_s (SmoothMoverBoundedAccel_update k
           (SmoothMoverBoundedAccel_init initial (- kBoundedMaxSlewAccel k - \<bar>kBoundedMaxSlew k\<bar> - 2)) target)"
    using up by (simp add: ba_first_update_rising)
  then show ?thesis by blast
qed

theorem first_update_depends_on_indeterminate_ds_witness:
  "\<exists>j1 j2.
     map_sum id ba_s (SmoothMoverBoundedAccel_update
        \<lparr>kLPFSlewRate = 1/2, kBoundedMaxSlew = 1, kBoundedMaxSlewAccel = 1\<rparr>
        (SmoothMoverBoundedAccel_init 0 j1) 5)
   \<noteq> map_sum id ba_s (SmoothMoverBoundedAccel_update
        \<lparr>kLPFSlewRate = 1/2, kBoundedMaxSlew = 1, kBoundedMaxSlewAccel = 1\<rparr>
        (SmoothMoverBoundedAccel_init 0 j2) 5)"
  using first_update_depends_on_indeterminate_ds
    [of 5 0 "\<lparr>kLPFSlewRate = 1/2, kBoundedMaxSlew = 1, kBoundedMaxSlewAccel = 1\<rparr>"]
  by simp

subsection \<open>The composed chains and observe\<close>

lemma compose_update_returns:
  "\<exists>c'. SmoothMoverCompose_update k c target = Inr c'"
proof -
  obtain r where "SmoothMoverBoundedAccel_update k (comp_r c) target = Inr r"
    using ba_assert_never_fails by blast
  then show ?thesis by (simp add: SmoothMoverCompose_update_def)
qed

lemma compose_update_Inr:
  assumes "SmoothMoverCompose_update k c target = Inr c'"
  shows "SmoothMoverBoundedAccel_update k (comp_r c) target = Inr (comp_r c')
       \<and> comp_s c' = SmoothMoverLPF_update k (comp_s c) (SmoothMoverBoundedAccel_value (comp_r c'))"
  using assms by (auto simp add: SmoothMoverCompose_update_def split: sum.splits)

text \<open>
  C5, as amended. \<open>observe\<close> always returns. The two centre states are \<open>SmoothMoverCompose\<close>
  chains: the centre coordinate of the rectangle is the target of the chain's
  bounded-acceleration update, and the value of that stage is the target of the chain's
  low-pass update. The size state is a bare \<open>SmoothMoverLPF\<close>: \<open>width * height\<close> is the
  target of one low-pass update, \<open>size * (1 - \<alpha>) + width * height * \<alpha>\<close>, and passes
  through no bounded-acceleration stage. The bounds and the aspect are unchanged.
\<close>

theorem observe_pipelines:
  "\<exists>c'. observe k c target = Inr c'
      \<and> SmoothMoverBoundedAccel_update k (comp_r (smr_centerX c))
            (rect_x target + rect_width target / 2) = Inr (comp_r (smr_centerX c'))
      \<and> comp_s (smr_centerX c')
          = SmoothMoverLPF_update k (comp_s (smr_centerX c))
              (SmoothMoverBoundedAccel_value (comp_r (smr_centerX c')))
      \<and> SmoothMoverBoundedAccel_update k (comp_r (smr_centerY c))
            (rect_y target + rect_height target / 2) = Inr (comp_r (smr_centerY c'))
      \<and> comp_s (smr_centerY c')
          = SmoothMoverLPF_update k (comp_s (smr_centerY c))
              (SmoothMoverBoundedAccel_value (comp_r (smr_centerY c')))
      \<and> smr_size c' = SmoothMoverLPF_update k (smr_size c) (rect_width target * rect_height target)
      \<and> SmoothMoverLPF_value (smr_size c')
          = SmoothMoverLPF_value (smr_size c) * (1 - kLPFSlewRate k)
            + rect_width target * rect_height target * kLPFSlewRate k
      \<and> smr_bounds c' = smr_bounds c \<and> smr_aspect c' = smr_aspect c"
proof -
  obtain cx where cx: "SmoothMoverCompose_update k (smr_centerX c) (rect_x target + rect_width target / 2) = Inr cx"
    using compose_update_returns by blast
  obtain cy where cy: "SmoothMoverCompose_update k (smr_centerY c) (rect_y target + rect_height target / 2) = Inr cy"
    using compose_update_returns by blast
  show ?thesis
    using compose_update_Inr [OF cx] compose_update_Inr [OF cy]
    by (simp add: observe_def cx cy SmoothMoverLPF_update_def SmoothMoverLPF_value_def)
qed

lemma observe_example:
  "observe \<lparr>kLPFSlewRate = 1/2, kBoundedMaxSlew = 1, kBoundedMaxSlewAccel = 1\<rparr>
     (SmoothMovingRect_init \<lparr>rect_x = 0, rect_y = 0, rect_width = 2, rect_height = 2\<rparr> 1 0 0)
     \<lparr>rect_x = 0, rect_y = 0, rect_width = 1, rect_height = 1\<rparr>
   = Inr \<lparr>smr_bounds = \<lparr>rect_x = 0, rect_y = 0, rect_width = 2, rect_height = 2\<rparr>,
          smr_aspect = 1,
          smr_centerX = \<lparr>comp_r = \<lparr>ba_s = 1/2, ba_ds = - (1/2)\<rparr>, comp_s = \<lparr>lpf_s = 3/4\<rparr>\<rparr>,
          smr_centerY = \<lparr>comp_r = \<lparr>ba_s = 1/2, ba_ds = - (1/2)\<rparr>, comp_s = \<lparr>lpf_s = 3/4\<rparr>\<rparr>,
          smr_size = \<lparr>lpf_s = 5/2\<rparr>\<rparr>"
  by (simp add: observe_def SmoothMovingRect_init_def SmoothMoverCompose_init_def
      SmoothMoverCompose_update_def SmoothMoverBoundedAccel_init_def SmoothMoverBoundedAccel_update_def
      SmoothMoverBoundedAccel_value_def SmoothMoverLPF_init_def SmoothMoverLPF_update_def Let_def)

lemma size_chain_spec_example:
  "size_chain_spec_observe \<lparr>kLPFSlewRate = 1/2, kBoundedMaxSlew = 1, kBoundedMaxSlewAccel = 1\<rparr>
     (size_chain_spec_init \<lparr>rect_x = 0, rect_y = 0, rect_width = 2, rect_height = 2\<rparr> 0)
     \<lparr>rect_x = 0, rect_y = 0, rect_width = 1, rect_height = 1\<rparr>
   = Inr \<lparr>comp_r = \<lparr>ba_s = 3, ba_ds = - 1\<rparr>, comp_s = \<lparr>lpf_s = 7/2\<rparr>\<rparr>"
  by (simp add: size_chain_spec_observe_def size_chain_spec_init_def SmoothMoverCompose_init_def
      SmoothMoverCompose_update_def SmoothMoverBoundedAccel_init_def SmoothMoverBoundedAccel_update_def
      SmoothMoverBoundedAccel_value_def SmoothMoverLPF_init_def SmoothMoverLPF_update_def Let_def)

text \<open>
  C5 as stated fails. Constructed on the bounds \<open>(0, 0, 2, 2)\<close> and shown the rectangle
  \<open>(0, 0, 1, 1)\<close> with all three rates as below, the controller's size becomes
  \<open>4 * 1/2 + 1 * 1/2 = 5/2\<close>; a composed chain started at \<open>4\<close> would first move its
  bounded-acceleration stage from \<open>4\<close> to \<open>3\<close> and read \<open>4 * 1/2 + 3 * 1/2 = 7/2\<close>.
\<close>

theorem size_is_not_a_composed_chain:
  "map_sum id (\<lambda>c. SmoothMoverLPF_value (smr_size c))
     (observe \<lparr>kLPFSlewRate = 1/2, kBoundedMaxSlew = 1, kBoundedMaxSlewAccel = 1\<rparr>
       (SmoothMovingRect_init \<lparr>rect_x = 0, rect_y = 0, rect_width = 2, rect_height = 2\<rparr> 1 0 0)
       \<lparr>rect_x = 0, rect_y = 0, rect_width = 1, rect_height = 1\<rparr>)
   \<noteq> map_sum id SmoothMoverCompose_value
     (size_chain_spec_observe \<lparr>kLPFSlewRate = 1/2, kBoundedMaxSlew = 1, kBoundedMaxSlewAccel = 1\<rparr>
       (size_chain_spec_init \<lparr>rect_x = 0, rect_y = 0, rect_width = 2, rect_height = 2\<rparr> 0)
       \<lparr>rect_x = 0, rect_y = 0, rect_width = 1, rect_height = 1\<rparr>)"
  by (simp add: observe_example size_chain_spec_example SmoothMoverLPF_value_def SmoothMoverCompose_value_def)

text \<open>The same for every value the composed chain's uninitialised velocity could hold.\<close>

lemma size_chain_spec_any_indeterminate:
  "map_sum id (\<lambda>c. SmoothMoverLPF_value (smr_size c))
     (observe \<lparr>kLPFSlewRate = 1/2, kBoundedMaxSlew = 1, kBoundedMaxSlewAccel = 1\<rparr>
       (SmoothMovingRect_init \<lparr>rect_x = 0, rect_y = 0, rect_width = 2, rect_height = 2\<rparr> 1 0 0)
       \<lparr>rect_x = 0, rect_y = 0, rect_width = 1, rect_height = 1\<rparr>)
   \<noteq> map_sum id SmoothMoverCompose_value
     (size_chain_spec_observe \<lparr>kLPFSlewRate = 1/2, kBoundedMaxSlew = 1, kBoundedMaxSlewAccel = 1\<rparr>
       (size_chain_spec_init \<lparr>rect_x = 0, rect_y = 0, rect_width = 2, rect_height = 2\<rparr> j)
       \<lparr>rect_x = 0, rect_y = 0, rect_width = 1, rect_height = 1\<rparr>)"
  by (simp add: observe_example size_chain_spec_observe_def size_chain_spec_init_def SmoothMoverCompose_init_def
      SmoothMoverCompose_update_def SmoothMoverBoundedAccel_init_def SmoothMoverBoundedAccel_update_def
      SmoothMoverBoundedAccel_value_def SmoothMoverLPF_init_def SmoothMoverLPF_update_def Let_def
      SmoothMoverLPF_value_def SmoothMoverCompose_value_def)

theorem observe_pipelines_witness:
  "\<exists>c'. observe \<lparr>kLPFSlewRate = 1/2, kBoundedMaxSlew = 1, kBoundedMaxSlewAccel = 1\<rparr>
           (SmoothMovingRect_init \<lparr>rect_x = 0, rect_y = 0, rect_width = 2, rect_height = 2\<rparr> 1 0 0)
           \<lparr>rect_x = 0, rect_y = 0, rect_width = 1, rect_height = 1\<rparr> = Inr c'
      \<and> SmoothMoverLPF_value (smr_size c') = 5/2"
proof -
  let ?k = "\<lparr>kLPFSlewRate = 1/2, kBoundedMaxSlew = 1, kBoundedMaxSlewAccel = 1\<rparr>"
  let ?c = "SmoothMovingRect_init \<lparr>rect_x = 0, rect_y = 0, rect_width = 2, rect_height = 2\<rparr> 1 0 0"
  let ?t = "\<lparr>rect_x = 0, rect_y = 0, rect_width = 1, rect_height = 1 :: real\<rparr>"
  from observe_pipelines [of ?k ?c ?t] obtain c' where c: "observe ?k ?c ?t = Inr c'"
    and v: "SmoothMoverLPF_value (smr_size c')
          = SmoothMoverLPF_value (smr_size ?c) * (1 - kLPFSlewRate ?k)
            + rect_width ?t * rect_height ?t * kLPFSlewRate ?k"
    by blast
  have "SmoothMoverLPF_value (smr_size ?c) = 4"
    by (simp add: SmoothMovingRect_init_def SmoothMoverLPF_init_def SmoothMoverLPF_value_def)
  with v have "SmoothMoverLPF_value (smr_size c') = 5/2" by simp
  with c show ?thesis by blast
qed

subsection \<open>scale: aspect and containment\<close>

lemma scale_start_Inr:
  assumes "scale_start c factor v = Inr r"
  shows "smr_aspect c \<noteq> 0
       \<and> 0 \<le> lpf_s (smr_size c) * factor / smr_aspect c
       \<and> rect_height r = sqrt (lpf_s (smr_size c) * factor / smr_aspect c)
       \<and> rect_width r = smr_aspect c * rect_height r
       \<and> rect_x r = SmoothMoverCompose_value (smr_centerX c) - rect_width r / 2
       \<and> rect_y r = SmoothMoverCompose_value (smr_centerY c) - rect_height r * v"
  using assms
  by (auto simp add: scale_start_def SmoothMoverLPF_value_def Let_def split: if_splits)

lemma scale_Inr:
  assumes "scale c factor v = Inr r"
  obtains r0 where "scale_start c factor v = Inr r0"
    and "r = shrink_bottom (smr_bounds c) (smr_aspect c)
              (shrink_right (smr_bounds c) (smr_aspect c)
                (shrink_top (smr_aspect c) (shrink_left (smr_aspect c) r0)))"
  using assms by (auto simp add: scale_def split: sum.splits)

lemma shrink_left_aspect:
  assumes "a \<noteq> 0" and "rect_width r = a * rect_height r"
  shows "rect_width (shrink_left a r) = a * rect_height (shrink_left a r)"
  using assms by (simp add: shrink_left_def Let_def algebra_simps)

lemma shrink_top_aspect:
  assumes "rect_width r = a * rect_height r"
  shows "rect_width (shrink_top a r) = a * rect_height (shrink_top a r)"
  using assms by (simp add: shrink_top_def Let_def algebra_simps)

lemma shrink_right_aspect:
  assumes "a \<noteq> 0" and "rect_width r = a * rect_height r"
  shows "rect_width (shrink_right b a r) = a * rect_height (shrink_right b a r)"
  using assms by (simp add: shrink_right_def Let_def field_simps)

lemma shrink_bottom_aspect:
  assumes "rect_width r = a * rect_height r"
  shows "rect_width (shrink_bottom b a r) = a * rect_height (shrink_bottom b a r)"
  using assms by (simp add: shrink_bottom_def Let_def algebra_simps)

text \<open>
  Over exact arithmetic every rectangle \<open>scale\<close> returns has \<open>width = aspect * height\<close>,
  whichever of the four shrinking blocks ran.
\<close>

lemma scale_aspect:
  assumes "scale c factor verticalPositioning = Inr r"
  shows "rect_width r = smr_aspect c * rect_height r"
proof -
  from assms obtain r0 where r0: "scale_start c factor verticalPositioning = Inr r0"
    and r: "r = shrink_bottom (smr_bounds c) (smr_aspect c)
              (shrink_right (smr_bounds c) (smr_aspect c)
                (shrink_top (smr_aspect c) (shrink_left (smr_aspect c) r0)))"
    by (rule scale_Inr)
  from r0 have a: "smr_aspect c \<noteq> 0" and w: "rect_width r0 = smr_aspect c * rect_height r0"
    by (simp_all add: scale_start_Inr)
  show ?thesis
    unfolding r
    by (intro shrink_bottom_aspect shrink_right_aspect shrink_top_aspect shrink_left_aspect a w)
qed

text \<open>
  Containment. The left and the top test compare with \<open>0\<close>, the right and the bottom test
  with the bounds. For bounds whose corner is the origin and a positive aspect the
  result lies in the bounds on all four sides.
\<close>

lemma shrink_left_bounds:
  "0 \<le> rect_x (shrink_left a r)"
  by (simp add: shrink_left_def Let_def)

lemma shrink_top_bounds:
  assumes "0 \<le> rect_x r"
  shows "0 \<le> rect_x (shrink_top a r) \<and> 0 \<le> rect_y (shrink_top a r)"
  using assms by (simp add: shrink_top_def Let_def)

lemma shrink_right_bounds:
  assumes "0 < a" and "rect_x b \<le> rect_x r" and "rect_y b \<le> rect_y r"
  shows "rect_x b \<le> rect_x (shrink_right b a r) \<and> rect_y b \<le> rect_y (shrink_right b a r)
       \<and> rect_right (shrink_right b a r) \<le> rect_right b"
proof (cases "rect_x b + rect_width b < rect_x r + rect_width r")
  case True
  define d where "d = rect_x r + rect_width r - (rect_x b + rect_width b)"
  have d: "0 < d" using True by (simp add: d_def)
  then have da: "0 \<le> d / a" using assms(1) by simp
  have eq: "shrink_right b a r =
      \<lparr>rect_x = rect_x r + d, rect_y = rect_y r + d / a,
       rect_width = rect_width r - 2 * d, rect_height = rect_height r - 2 * d / a\<rparr>"
    using True by (simp add: shrink_right_def Let_def d_def)
  have "rect_x b \<le> rect_x r + d" using d assms(2) by linarith
  moreover have "rect_y b \<le> rect_y r + d / a" using da assms(3) by linarith
  moreover have "rect_x r + d + (rect_width r - 2 * d) \<le> rect_x b + rect_width b"
    by (simp add: d_def)
  ultimately show ?thesis
    by (simp only: eq rect_right_def Rect.simps)
next
  case False
  with assms show ?thesis
    by (simp add: shrink_right_def Let_def rect_right_def)
qed

lemma shrink_bottom_bounds:
  assumes "0 < a" and "rect_x b \<le> rect_x r" and "rect_y b \<le> rect_y r"
    and "rect_right r \<le> rect_right b"
  shows "contained_in (shrink_bottom b a r) b"
proof (cases "rect_y b + rect_height b < rect_y r + rect_height r")
  case True
  define d where "d = rect_y r + rect_height r - (rect_y b + rect_height b)"
  have d: "0 < d" using True by (simp add: d_def)
  then have da: "0 \<le> d * a" using assms(1) by simp
  have eq: "shrink_bottom b a r =
      \<lparr>rect_x = rect_x r + d * a, rect_y = rect_y r + d,
       rect_width = rect_width r - 2 * d * a, rect_height = rect_height r - 2 * d\<rparr>"
    using True by (simp add: shrink_bottom_def Let_def d_def)
  have "rect_x b \<le> rect_x r + d * a" using da assms(2) by linarith
  moreover have "rect_y b \<le> rect_y r + d" using d assms(3) by linarith
  moreover have "rect_x r + d * a + (rect_width r - 2 * d * a) \<le> rect_x b + rect_width b"
    using da assms(4) unfolding rect_right_def by linarith
  moreover have "rect_y r + d + (rect_height r - 2 * d) \<le> rect_y b + rect_height b"
    by (simp add: d_def)
  ultimately show ?thesis
    by (simp only: eq contained_in_def rect_right_def rect_bottom_def Rect.simps)
next
  case False
  with assms show ?thesis
    by (simp add: shrink_bottom_def Let_def rect_right_def rect_bottom_def contained_in_def)
qed

lemma scale_contained_origin:
  assumes "scale c factor verticalPositioning = Inr r"
    and "0 < smr_aspect c"
    and "rect_x (smr_bounds c) = 0" and "rect_y (smr_bounds c) = 0"
  shows "contained_in r (smr_bounds c)"
proof -
  from assms(1) obtain r0 where r: "r = shrink_bottom (smr_bounds c) (smr_aspect c)
              (shrink_right (smr_bounds c) (smr_aspect c)
                (shrink_top (smr_aspect c) (shrink_left (smr_aspect c) r0)))"
    by (rule scale_Inr)
  let ?a = "smr_aspect c" and ?b = "smr_bounds c"
  let ?r2 = "shrink_top ?a (shrink_left ?a r0)"
  have 2: "0 \<le> rect_x ?r2 \<and> 0 \<le> rect_y ?r2"
    by (intro shrink_top_bounds shrink_left_bounds)
  have 3: "rect_x ?b \<le> rect_x (shrink_right ?b ?a ?r2) \<and> rect_y ?b \<le> rect_y (shrink_right ?b ?a ?r2)
       \<and> rect_right (shrink_right ?b ?a ?r2) \<le> rect_right ?b"
    using assms(2) 2 by (intro shrink_right_bounds) (simp_all add: assms(3,4))
  show ?thesis
    unfolding r using assms(2) 3 by (intro shrink_bottom_bounds) simp_all
qed

lemma observe_keeps_bounds:
  assumes "observe k c target = Inr c'"
  shows "smr_bounds c' = smr_bounds c \<and> smr_aspect c' = smr_aspect c"
  using assms by (auto simp add: observe_def split: sum.splits)

lemma observe_all_keeps_bounds:
  assumes "observe_all k c ts = Inr c'"
  shows "smr_bounds c' = smr_bounds c \<and> smr_aspect c' = smr_aspect c"
  using assms
proof (induction ts arbitrary: c)
  case Nil
  then show ?case by simp
next
  case (Cons t ts)
  from Cons.prems obtain c1 where 1: "observe k c t = Inr c1" and 2: "observe_all k c1 ts = Inr c'"
    by (auto split: sum.splits)
  from Cons.IH [OF 2] observe_keeps_bounds [OF 1] show ?case by simp
qed

lemma scale_contained_after_history:
  assumes "observe_all k (SmoothMovingRect_init b a jx jy) ts = Inr c"
    and "scale c factor verticalPositioning = Inr r"
    and "0 < a" and "rect_x b = 0" and "rect_y b = 0"
  shows "contained_in r b"
proof -
  from observe_all_keeps_bounds [OF assms(1)]
  have "smr_bounds c = b" and "smr_aspect c = a"
    by (simp_all add: SmoothMovingRect_init_def)
  with scale_contained_origin [OF assms(2)] assms(3-5) show ?thesis by simp
qed

text \<open>
  C1. The claim: the rectangle \<open>scale\<close> returns lies in the bounds the controller was
  constructed with, unless it is degenerate. The left and top tests of \<open>scale\<close> are
  \<^verbatim>\<open>x < 0\<close> and \<^verbatim>\<open>y < 0\<close>, not the bounds' own left and top, which the right and
  bottom tests do use. A controller constructed on the bounds \<open>(1, 1, 2, 2)\<close> with
  aspect \<open>1\<close>, asked for \<open>scale 1 1\<close> before any \<open>observe\<close>, returns \<open>(1, 0, 2, 2)\<close>:
  not degenerate, and its top \<open>0\<close> is above the bounds' top \<open>1\<close>.
\<close>

theorem scale_leaves_offset_bounds:
  "scale (SmoothMovingRect_init \<lparr>rect_x = 1, rect_y = 1, rect_width = 2, rect_height = 2\<rparr> 1 0 0) 1 1
     = Inr \<lparr>rect_x = 1, rect_y = 0, rect_width = 2, rect_height = 2\<rparr>
   \<and> \<not> degenerate \<lparr>rect_x = 1, rect_y = 0, rect_width = 2, rect_height = 2\<rparr>
   \<and> \<not> contained_in \<lparr>rect_x = 1, rect_y = 0, rect_width = 2, rect_height = 2\<rparr>
         (smr_bounds (SmoothMovingRect_init \<lparr>rect_x = 1, rect_y = 1, rect_width = 2, rect_height = 2\<rparr> 1 0 0))"
  by (simp add: scale_def scale_start_def SmoothMovingRect_init_def SmoothMoverCompose_init_def
      SmoothMoverCompose_value_def SmoothMoverLPF_init_def SmoothMoverLPF_value_def
      shrink_left_def shrink_top_def shrink_right_def shrink_bottom_def Let_def
      degenerate_def contained_in_def rect_right_def rect_bottom_def)

subsection \<open>scale: the centre and the degenerate crop\<close>

text \<open>
  The centre under each of the four shrinking blocks. The right and the bottom block
  keep both centre coordinates. The left block keeps the centre's \<open>x\<close> and, when it runs,
  moves the centre's \<open>y\<close> by \<open>x / aspect\<close>; the top block keeps the centre's \<open>y\<close> and moves
  the centre's \<open>x\<close> by \<open>y * aspect\<close>: they shrink the other extent and leave its
  coordinate where it was.
\<close>

lemma shrink_right_center:
  "center_x (shrink_right b a r) = center_x r \<and> center_y (shrink_right b a r) = center_y r"
  by (simp add: shrink_right_def Let_def center_x_def center_y_def field_simps)

lemma shrink_bottom_center:
  "center_x (shrink_bottom b a r) = center_x r \<and> center_y (shrink_bottom b a r) = center_y r"
  by (simp add: shrink_bottom_def Let_def center_x_def center_y_def field_simps)

lemma shrink_left_center_x:
  "center_x (shrink_left a r) = center_x r"
  by (simp add: shrink_left_def Let_def center_x_def)

lemma shrink_top_center_y:
  "center_y (shrink_top a r) = center_y r"
  by (simp add: shrink_top_def Let_def center_y_def)

lemma shrink_left_center_y:
  assumes "rect_x r < 0"
  shows "center_y (shrink_left a r) = center_y r + rect_x r / a"
  using assms by (simp add: shrink_left_def Let_def center_y_def)

lemma shrink_top_center_x:
  assumes "rect_y r < 0"
  shows "center_x (shrink_top a r) = center_x r + rect_y r * a"
  using assms by (simp add: shrink_top_def Let_def center_x_def)

text \<open>
  C6. The claim: each of the four corrections leaves the centre of the rectangle where
  it was. A controller constructed on the bounds \<open>(0, 0, 1, 1)\<close> with aspect \<open>1\<close>, asked
  for \<open>scale 4 (1/2)\<close>, starts from \<open>(-1/2, -1/2, 2, 2)\<close>, centred at \<open>(1/2, 1/2)\<close>. The left
  block makes it \<open>(0, -1/2, 1, 1)\<close>, centred at \<open>(1/2, 0)\<close>; the top block then moves the
  centre's \<open>x\<close> from \<open>1/2\<close> to \<open>0\<close>.
\<close>

theorem shrink_left_moves_center:
  "scale_start (SmoothMovingRect_init \<lparr>rect_x = 0, rect_y = 0, rect_width = 1, rect_height = 1\<rparr> 1 0 0)
      4 (1/2)
     = Inr \<lparr>rect_x = - (1/2), rect_y = - (1/2), rect_width = 2, rect_height = 2\<rparr>
   \<and> center_y \<lparr>rect_x = - (1/2), rect_y = - (1/2), rect_width = 2, rect_height = 2\<rparr> = 1/2
   \<and> shrink_left 1 \<lparr>rect_x = - (1/2), rect_y = - (1/2), rect_width = 2, rect_height = 2\<rparr>
     = \<lparr>rect_x = 0, rect_y = - (1/2), rect_width = 1, rect_height = 1\<rparr>
   \<and> center_y (shrink_left 1 \<lparr>rect_x = - (1/2), rect_y = - (1/2), rect_width = 2, rect_height = 2\<rparr>) = 0
   \<and> center_x \<lparr>rect_x = 0, rect_y = - (1/2), rect_width = 1, rect_height = 1\<rparr> = 1/2
   \<and> center_x (shrink_top 1 \<lparr>rect_x = 0, rect_y = - (1/2), rect_width = 1, rect_height = 1\<rparr>) = 0"
  by (simp add: scale_start_def SmoothMovingRect_init_def SmoothMoverCompose_init_def
      SmoothMoverCompose_value_def SmoothMoverLPF_init_def SmoothMoverLPF_value_def
      shrink_left_def shrink_top_def Let_def center_x_def center_y_def)

lemma scale_example_degenerate:
  "scale (SmoothMovingRect_init \<lparr>rect_x = 0, rect_y = 0, rect_width = 1, rect_height = 1\<rparr> 1 0 0)
      4 (1/2)
     = Inr \<lparr>rect_x = 0, rect_y = 0, rect_width = 0, rect_height = 0\<rparr>
   \<and> degenerate \<lparr>rect_x = 0, rect_y = 0, rect_width = 0, rect_height = 0\<rparr>"
  by (simp add: scale_def scale_start_def SmoothMovingRect_init_def SmoothMoverCompose_init_def
      SmoothMoverCompose_value_def SmoothMoverLPF_init_def SmoothMoverLPF_value_def
      shrink_left_def shrink_top_def shrink_right_def shrink_bottom_def Let_def degenerate_def)

text \<open>
  C7 as stated fails: the controller on the bounds \<open>(0, 0, 1, 1)\<close> with aspect \<open>1\<close>, asked
  for \<open>scale 4 (1/2)\<close>, returns the rectangle \<open>(0, 0, 0, 0)\<close> like any other result.
\<close>

theorem scale_returns_degenerate_rect:
  "scale (SmoothMovingRect_init \<lparr>rect_x = 0, rect_y = 0, rect_width = 1, rect_height = 1\<rparr> 1 0 0)
      4 (1/2)
     = Inr \<lparr>rect_x = 0, rect_y = 0, rect_width = 0, rect_height = 0\<rparr>
   \<and> degenerate \<lparr>rect_x = 0, rect_y = 0, rect_width = 0, rect_height = 0\<rparr>"
  by (rule scale_example_degenerate)

subsection \<open>rectBound\<close>

lemma rect_union_sides:
  "rect_x (rect_union a b) = min (rect_x a) (rect_x b)"
  "rect_y (rect_union a b) = min (rect_y a) (rect_y b)"
  "rect_right (rect_union a b) = max (rect_right a) (rect_right b)"
  "rect_bottom (rect_union a b) = max (rect_bottom a) (rect_bottom b)"
  by (simp_all add: rect_union_def Let_def rect_right_def rect_bottom_def)

lemma rectBound_loop_sides:
  "rect_x (rectBound_loop rv rs) = Min (rect_x ` set (rv # rs))
   \<and> rect_y (rectBound_loop rv rs) = Min (rect_y ` set (rv # rs))
   \<and> rect_right (rectBound_loop rv rs) = Max (rect_right ` set (rv # rs))
   \<and> rect_bottom (rectBound_loop rv rs) = Max (rect_bottom ` set (rv # rs))"
proof (induction rs arbitrary: rv)
  case Nil
  show ?case by simp
next
  case (Cons r rs)
  have mn: "Min (insert (min a b) A) = Min (insert a (insert b A))" if "finite A"
    for a b :: 'a and A
    using that by (cases "A = {}") (simp_all add: min.assoc)
  have mx: "Max (insert (max a b) A) = Max (insert a (insert b A))" if "finite A"
    for a b :: 'a and A
    using that by (cases "A = {}") (simp_all add: max.assoc)
  show ?case
    using Cons.IH [of "rect_union rv r"]
    by (simp add: rect_union_sides mn mx)
qed

text \<open>
  C9. For a non-empty sequence \<open>rectBound\<close> returns, and the left and top of its result
  are the least left and top of the rectangles, its right and bottom their greatest right
  and bottom: the smallest rectangle that contains them all. The union of
  \<open>(0, 0, 10, 10)\<close> and \<open>(5, 5, 10, 10)\<close> is \<open>(0, 0, 15, 15)\<close>. On the empty sequence the
  \<^verbatim>\<open>assert\<close> fails.
\<close>

theorem rectBound_minimal:
  assumes "rects \<noteq> []"
  shows "\<exists>rv. rectBound rects = Inr rv
           \<and> rect_x rv = Min (rect_x ` set rects)
           \<and> rect_y rv = Min (rect_y ` set rects)
           \<and> rect_right rv = Max (rect_right ` set rects)
           \<and> rect_bottom rv = Max (rect_bottom ` set rects)
           \<and> rectBound [\<lparr>rect_x = 0, rect_y = 0, rect_width = 10, rect_height = 10\<rparr>,
                        \<lparr>rect_x = 5, rect_y = 5, rect_width = 10, rect_height = 10\<rparr>]
               = Inr \<lparr>rect_x = 0, rect_y = 0, rect_width = 15, rect_height = (15::int)\<rparr>
           \<and> rectBound ([] :: int Rect list) = Inl AssertionFailed"
proof (cases rects)
  case Nil
  with assms show ?thesis by simp
next
  case (Cons r rs)
  then show ?thesis
    using rectBound_loop_sides [of r rs]
    by (simp add: rectBound_def rect_union_def Let_def)
qed

lemma rectBound_empty: "rectBound [] = Inl AssertionFailed"
  by (simp add: rectBound_def)

theorem rectBound_minimal_witness:
  "rectBound [\<lparr>rect_x = 0, rect_y = 0, rect_width = 10, rect_height = 10\<rparr>,
              \<lparr>rect_x = 5, rect_y = 5, rect_width = 10, rect_height = 10\<rparr>]
   = Inr \<lparr>rect_x = 0, rect_y = 0, rect_width = 15, rect_height = (15::int)\<rparr>"
proof -
  let ?rects = "[\<lparr>rect_x = 0, rect_y = 0, rect_width = 10, rect_height = 10\<rparr>,
              \<lparr>rect_x = 5, rect_y = 5, rect_width = 10, rect_height = (10::int)\<rparr>]"
  have "?rects \<noteq> []" by simp
  from rectBound_minimal [OF this] obtain rv where rv: "rectBound ?rects = Inr rv"
    and "rect_x rv = 0" "rect_y rv = 0" "rect_right rv = 15" "rect_bottom rv = 15"
    by (auto simp add: rect_right_def rect_bottom_def)
  then have "rv = \<lparr>rect_x = 0, rect_y = 0, rect_width = 15, rect_height = 15\<rparr>"
    by (cases rv) (simp add: rect_right_def rect_bottom_def)
  with rv show ?thesis by simp
qed

section \<open>Properties on binary32\<close>

subsection \<open>Evaluating the arithmetic\<close>

text \<open>
  The arithmetic evaluates by rewriting. The square root of a number that is no perfect
  square is bracketed instead: \<open>f32_round_sqrt\<close> gives the rounded root from the exponent
  and the two neighbouring half-way points.
\<close>

lemma ilog2_numeral:
  "ilog2 (numeral k) a =
     (if 2 \<le> a then ilog2 (pred_numeral k) (a / 2) + 1
      else if a < 1 then ilog2 (pred_numeral k) (a * 2) - 1
      else 0)"
  by (simp add: numeral_eq_Suc)

lemmas f32_eval = f32_of_real_def f32_round_def ilog2_numeral round_to_even_def Let_def signed_def
  fsub_def fgt_def fge_def


lemma ilog2_unique:
  assumes "2 powi e \<le> x" and "x < 2 powi (e + 1)" and "nat \<bar>e\<bar> \<le> n"
  shows "ilog2 n x = e"
  using assms
proof (induction n arbitrary: x e)
  case 0
  then show ?case by simp
next
  case (Suc n)
  show ?case
  proof (cases "2 \<le> x")
    case True
    have "1 \<le> e"
    proof (rule ccontr)
      assume "\<not> 1 \<le> e"
      then have "e + 1 \<le> 1" by simp
      then have "(2::real) powi (e + 1) \<le> 2 powi 1"
        by (intro power_int_increasing) simp_all
      with Suc.prems(2) True show False by simp
    qed
    have "ilog2 n (x / 2) = e - 1"
    proof (rule Suc.IH)
      show "2 powi (e - 1) \<le> x / 2"
        using Suc.prems(1) by (simp add: power_int_diff)
      show "x / 2 < 2 powi (e - 1 + 1)"
        using Suc.prems(2) by (simp add: power_int_add)
      show "nat \<bar>e - 1\<bar> \<le> n"
        using Suc.prems(3) \<open>1 \<le> e\<close> by simp
    qed
    with True show ?thesis by simp
  next
    case False
    show ?thesis
    proof (cases "x < 1")
      case True
      have "e \<le> - 1"
      proof (rule ccontr)
        assume "\<not> e \<le> - 1"
        then have "0 \<le> e" by simp
        then have "(2::real) powi 0 \<le> 2 powi e"
          by (intro power_int_increasing) simp_all
        with Suc.prems(1) True show False by simp
      qed
      have "ilog2 n (x * 2) = e + 1"
      proof (rule Suc.IH)
        show "2 powi (e + 1) \<le> x * 2"
          using Suc.prems(1) by (simp add: power_int_add)
        show "x * 2 < 2 powi (e + 1 + 1)"
          using Suc.prems(2) by (simp add: power_int_add)
        show "nat \<bar>e + 1\<bar> \<le> n"
          using Suc.prems(3) \<open>e \<le> - 1\<close> by simp
      qed
      with True False show ?thesis by simp
    next
      case ge1: False
      have "e = 0"
      proof (rule ccontr)
        assume "e \<noteq> 0"
        then consider "1 \<le> e" | "e + 1 \<le> 0" by linarith
        then show False
        proof cases
          case 1
          then have "(2::real) powi 1 \<le> 2 powi e"
            by (intro power_int_increasing) simp_all
          with Suc.prems(1) False show False by simp
        next
          case 2
          then have "(2::real) powi (e + 1) \<le> 2 powi 0"
            by (intro power_int_increasing) simp_all
          with Suc.prems(2) ge1 show False by simp
        qed
      qed
      with False ge1 show ?thesis by simp
    qed
  qed
qed

lemma round_to_even_unique:
  assumes "of_int n - 1/2 < y" and "y < of_int n + 1/2"
  shows "round_to_even y = n"
proof -
  consider (lo) "y < of_int n" | (hi) "of_int n \<le> y" by linarith
  then show ?thesis
  proof cases
    case lo
    then have f: "\<lfloor>y\<rfloor> = n - 1"
      using assms(1) by (intro floor_unique) simp_all
    then show ?thesis
      using assms(1) by (simp add: round_to_even_def Let_def)
  next
    case hi
    then have f: "\<lfloor>y\<rfloor> = n"
      using assms(2) by (intro floor_unique) simp_all
    then show ?thesis
      using assms(2) by (simp add: round_to_even_def Let_def)
  qed
qed

lemma f32_round_sqrt:
  assumes lo: "(2 powi e)\<^sup>2 \<le> a" and hi: "a < (2 powi (e + 1))\<^sup>2"
    and e: "- 126 \<le> e" "e \<le> 126"
    and n1: "((of_int n - 1/2) * 2 powi (e - 23))\<^sup>2 < a"
    and n2: "a < ((of_int n + 1/2) * 2 powi (e - 23))\<^sup>2"
    and n: "1 \<le> n" "n \<le> 2 ^ 24"
  shows "f32_round False (sqrt a) = Finite False (of_int n * 2 powi (e - 23))"
proof -
  define q :: real where "q = 2 powi (e - 23)"
  have q: "0 < q" by (simp add: q_def)
  have p: "(0::real) < 2 powi e" "(0::real) < 2 powi (e + 1)" by simp_all
  have "(0::real) < (2 powi e)\<^sup>2" by simp
  with lo have a: "0 < a" by linarith
  have s1: "2 powi e \<le> sqrt a"
    using lo p(1) by (simp add: real_le_rsqrt)
  have s2: "sqrt a < 2 powi (e + 1)"
    using hi p(2) a by (simp add: real_less_lsqrt)
  have il: "ilog2 300 (sqrt a) = e"
    using s1 s2 e by (intro ilog2_unique) simp_all
  have y1: "of_int n - 1/2 < sqrt a / q"
  proof -
    have "0 \<le> (of_int n - 1/2) * q" using n(1) q by simp
    with n1 have "(of_int n - 1/2) * q < sqrt a"
      unfolding q_def by (simp add: real_less_rsqrt)
    then show ?thesis using q by (simp add: pos_less_divide_eq)
  qed
  have y2: "sqrt a / q < of_int n + 1/2"
  proof -
    have "0 < (of_int n + 1/2) * q" using n(1) q by simp
    with n2 a have "sqrt a < (of_int n + 1/2) * q"
      unfolding q_def by (simp add: real_less_lsqrt)
    then show ?thesis using q by (simp add: pos_divide_less_eq)
  qed
  have r: "round_to_even (sqrt a / q) = n"
    using y1 y2 by (rule round_to_even_unique)
  have "of_int n * q \<le> 2 ^ 24 * 2 powi (126 - 23)"
  proof (rule mult_mono)
    show "(of_int n :: real) \<le> 2 ^ 24" using n(2) by (metis of_int_le_iff of_int_numeral of_int_power)
    show "q \<le> 2 powi (126 - 23)" unfolding q_def using e(2) by (intro power_int_increasing) simp_all
    show "0 \<le> q" using q by simp
  qed simp_all
  also have "\<dots> < 2 ^ 128" by simp
  finally have ov: "\<not> 2 ^ 128 \<le> of_int n * q" by simp
  have nz: "sqrt a \<noteq> 0" using a by simp
  show ?thesis
    using e(1) ov nz by (simp add: f32_round_def Let_def il r q_def [symmetric])
qed

subsection \<open>The rounding error\<close>

text \<open>
  A magnitude below \<open>2 ^ 127\<close> rounds to a finite number, off by at most the fraction
  \<open>2 ^ - 24\<close> of the magnitude, or by \<open>2 ^ - 150\<close> in the subnormal range. The same holds
  of a product and of a sum of finite numbers.
\<close>

lemma ilog2_exhausted:
  assumes "0 < a" and "a < 2 powi (- int n)"
  shows "ilog2 n a = - int n"
  using assms
proof (induction n arbitrary: a)
  case 0
  show ?case by simp
next
  case (Suc n)
  have "(2::real) powi (- int (Suc n)) \<le> 2 powi (- 1)"
    by (intro power_int_increasing) simp_all
  with Suc.prems(2) have small: "a < 1/2" by simp
  have "ilog2 n (a * 2) = - int n"
  proof (rule Suc.IH)
    show "0 < a * 2" using Suc.prems(1) by simp
    have "a * 2 < 2 powi (- int (Suc n)) * 2" using Suc.prems(2) by simp
    also have "\<dots> = 2 powi (- int (Suc n) + 1)"
      by (subst power_int_add) simp_all
    also have "- int (Suc n) + 1 = - int n" by simp
    finally show "a * 2 < 2 powi (- int n)" .
  qed
  with small show ?case by simp
qed

lemma binary_exponent_exists:
  assumes "0 < (a::real)"
  shows "\<exists>e. 2 powi e \<le> a \<and> a < 2 powi (e + 1)"
proof -
  define e where "e = \<lfloor>log 2 a\<rfloor>"
  have "2 powr (of_int e) \<le> a \<and> a < 2 powr (of_int e + 1)"
    using assms floor_log_eq_powr_iff [of a 2 e] by (simp add: e_def)
  moreover have "(2::real) powr (of_int e) = 2 powi e"
    by (simp add: powr_real_of_int' power_int_def)
  moreover have "(2::real) powr (of_int e + 1) = 2 powi (e + 1)"
    using powr_real_of_int' [of 2 "e + 1"] by (simp add: power_int_def)
  ultimately show ?thesis by auto
qed

lemma f32_exponent_bounds:
  assumes "0 < a" and "a < 2 ^ 127"
  defines "E \<equiv> max (ilog2 300 a) (- 126)"
  shows "- 126 \<le> E \<and> E \<le> 126 \<and> a < 2 powi (E + 1) \<and> (2 powi E \<le> a \<or> E = - 126)"
proof -
  from assms(1) obtain e where e: "2 powi e \<le> a" "a < 2 powi (e + 1)"
    using binary_exponent_exists by blast
  have e126: "e \<le> 126"
  proof (rule ccontr)
    assume "\<not> e \<le> 126"
    then have "127 \<le> e" by simp
    then have "(2::real) powi 127 \<le> 2 powi e"
      by (intro power_int_increasing) simp_all
    with e(1) assms(2) show False by simp
  qed
  show ?thesis
  proof (cases "- 300 \<le> e")
    case True
    have il: "ilog2 300 a = e"
      using e True e126 by (intro ilog2_unique) simp_all
    show ?thesis
    proof (cases "- 126 \<le> e")
      case True
      with il e e126 show ?thesis by (simp add: E_def)
    next
      case False
      then have "e + 1 \<le> - 125" by simp
      then have "(2::real) powi (e + 1) \<le> 2 powi (- 125)"
        by (intro power_int_increasing) simp_all
      with e(2) have "a < 2 powi (- 125)" by simp
      with il False show ?thesis by (simp add: E_def)
    qed
  next
    case False
    then have "e + 1 \<le> - 300" by simp
    then have "(2::real) powi (e + 1) \<le> 2 powi (- 300)"
      by (intro power_int_increasing) simp_all
    with e(2) have small: "a < 2 powi (- int 300)" by simp
    have il: "ilog2 300 a = - int 300"
      using assms(1) small by (rule ilog2_exhausted)
    have "(2::real) powi (- int 300) \<le> 2 powi (- 125)"
      by (intro power_int_increasing) simp_all
    with small have "a < 2 powi (- 125)" by simp
    with il show ?thesis by (simp add: E_def)
  qed
qed

lemma round_to_even_error:
  "\<bar>of_int (round_to_even y) - y\<bar> \<le> 1/2"
proof -
  have "of_int \<lfloor>y\<rfloor> \<le> y" "y < of_int \<lfloor>y\<rfloor> + 1" by linarith+
  then show ?thesis
    by (auto simp add: round_to_even_def Let_def)
qed

lemma round_to_even_nonneg:
  assumes "0 \<le> y"
  shows "0 \<le> round_to_even y"
proof -
  have "0 \<le> \<lfloor>y\<rfloor>" using assms by simp
  then show ?thesis by (auto simp add: round_to_even_def Let_def)
qed

lemma f32_round_error:
  assumes "0 \<le> a" and "a < 2 ^ 127"
  shows "\<exists>r. f32_round s a = Finite s r \<and> 0 \<le> r \<and> \<bar>r - a\<bar> \<le> a / 2 ^ 24 + 1 / 2 ^ 150"
proof (cases "a = 0")
  case True
  then show ?thesis by (simp add: f32_round_def)
next
  case False
  with assms(1) have pos: "0 < a" by simp
  define E where "E = max (ilog2 300 a) (- 126)"
  define q :: real where "q = 2 powi (E - 23)"
  define n where "n = round_to_even (a / q)"
  define r where "r = of_int n * q"
  have E: "- 126 \<le> E" "E \<le> 126" "a < 2 powi (E + 1)" "2 powi E \<le> a \<or> E = - 126"
    using f32_exponent_bounds [OF pos assms(2)] by (simp_all add: E_def)
  have q: "0 < q" by (simp add: q_def)
  have half: "q / 2 = 2 powi (E - 24)"
  proof -
    have "(2::real) powi (E - 23) = 2 powi (E - 24 + 1)" by simp
    also have "\<dots> = 2 powi (E - 24) * 2" by (subst power_int_add) simp_all
    finally show ?thesis by (simp add: q_def)
  qed
  have "\<bar>r - a\<bar> = q * \<bar>of_int n - a / q\<bar>"
  proof -
    have "r - a = q * (of_int n - a / q)" using q by (simp add: r_def field_simps)
    then show ?thesis using q by (simp add: abs_mult)
  qed
  also have "\<dots> \<le> q * (1/2)"
    using q round_to_even_error [of "a / q"] by (intro mult_left_mono) (simp_all add: n_def)
  finally have err: "\<bar>r - a\<bar> \<le> 2 powi (E - 24)" using half by simp
  have n0: "0 \<le> r"
    using q pos round_to_even_nonneg [of "a / q"] by (simp add: r_def n_def)
  have "(2::real) powi (E - 24) \<le> 2 powi (126 - 24)"
    using E(2) by (intro power_int_increasing) simp_all
  with err have "r \<le> a + 2 powi (126 - 24)" by linarith
  also have "\<dots> < 2 ^ 127 + 2 powi (126 - 24)" using assms(2) by simp
  also have "\<dots> \<le> 2 ^ 128" by simp
  finally have ov: "\<not> 2 ^ 128 \<le> r" by simp
  have bound: "2 powi (E - 24) \<le> a / 2 ^ 24 + 1 / 2 ^ 150"
  proof (cases "2 powi E \<le> a")
    case True
    have "(2::real) powi (E - 24) = 2 powi E / 2 ^ 24"
      by (simp add: power_int_diff)
    also have "\<dots> \<le> a / 2 ^ 24" using True by (simp add: divide_right_mono)
    finally show ?thesis by simp
  next
    case False
    with E(4) have "E = - 126" by simp
    then show ?thesis using pos by simp
  qed
  have "f32_round s a = Finite s r"
    using False ov by (simp add: f32_round_def Let_def E_def [symmetric] q_def [symmetric] n_def [symmetric] r_def [symmetric])
  with n0 err bound show ?thesis by auto
qed

lemma f32_one: "f32_of_real 1 = Finite False 1"
  by (simp add: f32_eval)

lemma signed_abs_diff:
  assumes "0 \<le> r" and "0 \<le> a"
  shows "\<bar>signed sg r - signed sg a\<bar> = \<bar>r - a\<bar>"
  by (cases sg) (simp_all add: signed_def abs_minus_commute)

lemma fmul_error:
  assumes "0 \<le> a" and "0 \<le> b" and "a * b < 2 ^ 127"
  shows "\<exists>r. fmul (Finite s a) (Finite t b) = Finite (s \<noteq> t) r \<and> 0 \<le> r
           \<and> \<bar>r - a * b\<bar> \<le> a * b / 2 ^ 24 + 1 / 2 ^ 150"
proof -
  have "0 \<le> a * b" using assms(1,2) by simp
  from f32_round_error [OF this assms(3)] show ?thesis by simp
qed

lemma fadd_error:
  assumes "0 \<le> a" and "0 \<le> b" and "a + b < 2 ^ 127"
  shows "\<exists>sg r. fadd (Finite s a) (Finite t b) = Finite sg r \<and> 0 \<le> r
           \<and> \<bar>signed sg r - (signed s a + signed t b)\<bar>
               \<le> \<bar>signed s a + signed t b\<bar> / 2 ^ 24 + 1 / 2 ^ 150"
proof -
  define v where "v = signed s a + signed t b"
  show ?thesis
  proof (cases "v = 0")
    case True
    then have "fadd (Finite s a) (Finite t b) = Finite (s \<and> t) 0"
      by (simp add: v_def Let_def)
    with True show ?thesis by (auto simp add: v_def signed_def)
  next
    case False
    have "\<bar>v\<bar> \<le> a + b" using assms(1,2) by (auto simp add: v_def signed_def)
    with assms(3) have "\<bar>v\<bar> < 2 ^ 127" by simp
    from f32_round_error [OF abs_ge_zero this]
    obtain r where r: "f32_round (v < 0) \<bar>v\<bar> = Finite (v < 0) r" "0 \<le> r"
      "\<bar>r - \<bar>v\<bar>\<bar> \<le> \<bar>v\<bar> / 2 ^ 24 + 1 / 2 ^ 150" by blast
    have "fadd (Finite s a) (Finite t b) = Finite (v < 0) r"
      using False r(1) by (simp add: v_def Let_def)
    moreover have "\<bar>signed (v < 0) r - v\<bar> = \<bar>r - \<bar>v\<bar>\<bar>"
    proof (cases "v < 0")
      case True
      then have "signed (v < 0) r - v = - (r - \<bar>v\<bar>)" by (simp add: signed_def)
      then show ?thesis by (simp only: abs_minus)
    next
      case False
      then have "signed (v < 0) r - v = r - \<bar>v\<bar>" by (simp add: signed_def)
      then show ?thesis by simp
    qed
    ultimately show ?thesis using r(2,3) unfolding v_def by auto
  qed
qed

lemma signed_mult: "signed s a * signed t b = signed (s \<noteq> t) (a * b)"
  by (cases s; cases t) (simp_all add: signed_def)

lemma signed_abs: "0 \<le> a \<Longrightarrow> \<bar>signed s a\<bar> = a"
  by (simp add: signed_def)


subsection \<open>The inputs of the exact part, on binary32\<close>

text \<open>
  The inputs at which the exact part evaluates \<open>scale\<close> and the bounded-acceleration update
  are small binary fractions; binary32 computes the same results there.
\<close>

lemma scale_f32_leaves_offset_bounds:
  "scale_f32
     (SmoothMovingRect_init_f32
        \<lparr>rect_x = f32_of_real 1, rect_y = f32_of_real 1,
         rect_width = f32_of_real 2, rect_height = f32_of_real 2\<rparr>
        (f32_of_real 1) (f32_of_real 0) (f32_of_real 0))
     (f32_of_real 1) (f32_of_real 1)
   = \<lparr>rect_x = f32_of_real 1, rect_y = f32_of_real 0,
      rect_width = f32_of_real 2, rect_height = f32_of_real 2\<rparr>"
  by (simp add: scale_f32_def scale_start_f32_def shrink_left_f32_def shrink_top_f32_def
      shrink_right_f32_def shrink_bottom_f32_def SmoothMovingRect_init_f32_def
      SmoothMoverCompose_init_f32_def SmoothMoverCompose_value_f32_def
      SmoothMoverLPF_init_f32_def SmoothMoverLPF_value_f32_def
      SmoothMoverBoundedAccel_init_f32_def f32_eval)

lemma scale_f32_example_degenerate:
  "scale_f32
     (SmoothMovingRect_init_f32
        \<lparr>rect_x = f32_of_real 0, rect_y = f32_of_real 0,
         rect_width = f32_of_real 1, rect_height = f32_of_real 1\<rparr>
        (f32_of_real 1) (f32_of_real 0) (f32_of_real 0))
     (f32_of_real 4) (f32_of_real (1/2))
   = \<lparr>rect_x = f32_of_real 0, rect_y = f32_of_real 0,
      rect_width = f32_of_real 0, rect_height = f32_of_real 0\<rparr>"
  by (simp add: scale_f32_def scale_start_f32_def shrink_left_f32_def shrink_top_f32_def
      shrink_right_f32_def shrink_bottom_f32_def SmoothMovingRect_init_f32_def
      SmoothMoverCompose_init_f32_def SmoothMoverCompose_value_f32_def
      SmoothMoverLPF_init_f32_def SmoothMoverLPF_value_f32_def
      SmoothMoverBoundedAccel_init_f32_def f32_eval)

lemma shrink_left_f32_example:
  "scale_start_f32
     (SmoothMovingRect_init_f32
        \<lparr>rect_x = f32_of_real 0, rect_y = f32_of_real 0,
         rect_width = f32_of_real 1, rect_height = f32_of_real 1\<rparr>
        (f32_of_real 1) (f32_of_real 0) (f32_of_real 0))
     (f32_of_real 4) (f32_of_real (1/2))
   = \<lparr>rect_x = f32_of_real (- (1/2)), rect_y = f32_of_real (- (1/2)),
      rect_width = f32_of_real 2, rect_height = f32_of_real 2\<rparr>
   \<and> shrink_left_f32 (f32_of_real 1)
       \<lparr>rect_x = f32_of_real (- (1/2)), rect_y = f32_of_real (- (1/2)),
        rect_width = f32_of_real 2, rect_height = f32_of_real 2\<rparr>
     = \<lparr>rect_x = f32_of_real 0, rect_y = f32_of_real (- (1/2)),
        rect_width = f32_of_real 1, rect_height = f32_of_real 1\<rparr>"
  by (simp add: scale_start_f32_def shrink_left_f32_def SmoothMovingRect_init_f32_def
      SmoothMoverCompose_init_f32_def SmoothMoverCompose_value_f32_def
      SmoothMoverLPF_init_f32_def SmoothMoverLPF_value_f32_def
      SmoothMoverBoundedAccel_init_f32_def f32_eval)

lemma ba_f32_rising_overshoot_example:
  "SmoothMoverBoundedAccel_update_f32
     \<lparr>kLPFSlewRate_f32 = f32_of_real (1/2), kBoundedMaxSlew_f32 = f32_of_real 1,
      kBoundedMaxSlewAccel_f32 = f32_of_real 1\<rparr>
     \<lparr>ba_s_f32 = f32_of_real 0, ba_ds_f32 = f32_of_real 0\<rparr>
     (f32_of_real (1/2))
   = Inr \<lparr>ba_s_f32 = f32_of_real (- (1/2)), ba_ds_f32 = f32_of_real (- (1/2))\<rparr>"
  by (simp add: SmoothMoverBoundedAccel_update_f32_def f32_eval)

subsection \<open>The bounded-acceleration stage on binary32\<close>

text \<open>
  C4. The claim: for a state with \<open>\<bar>ds\<bar> \<le> vmax\<close> the update leaves \<open>s\<close> on its side of the
  target, so that neither \<^verbatim>\<open>assert\<close> fails. The overshoot clamp stores the rounded
  difference \<^verbatim>\<open>target - s_\<close> and then adds it to \<^verbatim>\<open>s_\<close>, rounding again; the sum can
  fall short of the target. With \<open>vmax = amax = 4\<close>, \<open>s = 3\<close>, \<open>ds = 0\<close> and the target
  \<^verbatim>\<open>0.3f\<close>, the difference rounds to \<open>- 11324621 / 4194304\<close>, the sum is
  \<open>1258291 / 4194304\<close>, below \<^verbatim>\<open>0.3f\<close> \<open>= 5033165 / 16777216\<close>, and
  \<^verbatim>\<open>assert(s_ >= target)\<close> fails. The same happens within the ranges of the trackbars of
  \<^verbatim>\<open>main\<close>: \<open>vmax = 2\<close>, \<open>amax\<close> \<^verbatim>\<open>0.2f\<close>, \<open>s = 3/2\<close>, \<open>ds = - 3/2\<close>.
\<close>

theorem ba_f32_assertion_fails:
  "fle (fneg (f32_of_real 4)) (f32_of_real 0) \<and> fle (f32_of_real 0) (f32_of_real 4)
   \<and> SmoothMoverBoundedAccel_update_f32
        \<lparr>kLPFSlewRate_f32 = f32_of_real (1/10), kBoundedMaxSlew_f32 = f32_of_real 4,
         kBoundedMaxSlewAccel_f32 = f32_of_real 4\<rparr>
        \<lparr>ba_s_f32 = f32_of_real 3, ba_ds_f32 = f32_of_real 0\<rparr>
        (f32_of_real (3/10))
      = Inl AssertionFailed
   \<and> fle (fneg (f32_of_real 2)) (f32_of_real (- (3/2))) \<and> fle (f32_of_real (- (3/2))) (f32_of_real 2)
   \<and> SmoothMoverBoundedAccel_update_f32
        \<lparr>kLPFSlewRate_f32 = f32_of_real (1/10), kBoundedMaxSlew_f32 = f32_of_real 2,
         kBoundedMaxSlewAccel_f32 = f32_of_real (1/5)\<rparr>
        \<lparr>ba_s_f32 = f32_of_real (3/2), ba_ds_f32 = f32_of_real (- (3/2))\<rparr>
        (f32_of_real (3/10))
      = Inl AssertionFailed"
  by (simp add: SmoothMoverBoundedAccel_update_f32_def f32_eval)

subsection \<open>The low-pass stage on binary32\<close>

text \<open>
  C8 as stated fails on binary32. With the coefficient \<^verbatim>\<open>0.1f\<close> and \<open>s\<close> already on the
  target \<^verbatim>\<open>3.3f\<close> \<open>= 13841203 / 4194304\<close>, one update moves \<open>s\<close> to
  \<open>6920601 / 2097152\<close>, two units in the last place below the target: the distance grows
  from \<open>0\<close>. With the coefficient \<^verbatim>\<open>0.33f\<close> and the target \<^verbatim>\<open>27.9f\<close>
  \<open>= 14627635 / 524288\<close>, an \<open>s\<close> one unit in the last place above the target is moved to
  one unit below it: \<open>s\<close> crosses the target.
\<close>

theorem lpf_f32_leaves_and_crosses_target:
  "f32_of_real (33/10) = Finite False (13841203/4194304)
   \<and> SmoothMoverLPF_update_f32
        \<lparr>kLPFSlewRate_f32 = f32_of_real (1/10), kBoundedMaxSlew_f32 = f32_of_real 1,
         kBoundedMaxSlewAccel_f32 = f32_of_real 1\<rparr>
        \<lparr>lpf_s_f32 = f32_of_real (33/10)\<rparr> (f32_of_real (33/10))
      = \<lparr>lpf_s_f32 = Finite False (6920601/2097152)\<rparr>
   \<and> flt (Finite False (6920601/2097152)) (f32_of_real (33/10))
   \<and> f32_of_real (279/10) = Finite False (14627635/524288)
   \<and> flt (f32_of_real (279/10)) (Finite False (3656909/131072))
   \<and> SmoothMoverLPF_update_f32
        \<lparr>kLPFSlewRate_f32 = f32_of_real (33/100), kBoundedMaxSlew_f32 = f32_of_real 1,
         kBoundedMaxSlewAccel_f32 = f32_of_real 1\<rparr>
        \<lparr>lpf_s_f32 = Finite False (3656909/131072)\<rparr> (f32_of_real (279/10))
      = \<lparr>lpf_s_f32 = Finite False (7313817/262144)\<rparr>
   \<and> flt (Finite False (7313817/262144)) (f32_of_real (279/10))"
  by (simp add: SmoothMoverLPF_update_f32_def f32_eval)

text \<open>
  C8, as amended. On binary32 the low-pass update is \<open>s * (1 - \<alpha>) + target * \<alpha>\<close> with each
  of its four operations rounded, and it approaches the target up to the rounding error
  only: for \<open>0 < \<alpha> \<le> 1\<close> and \<open>s\<close> and the target of magnitude at most \<open>2 ^ 100\<close>, the
  result is finite and its distance to the target is at most \<open>1 - \<alpha>\<close> times the distance
  before, plus \<open>max \<bar>s\<bar> \<bar>target\<bar> / 2 ^ 20 + 2 ^ - 148\<close>.
\<close>

theorem lpf_f32_approach_up_to_rounding:
  assumes k: "kLPFSlewRate_f32 k = Finite False \<alpha>" and \<alpha>: "0 < \<alpha>" "\<alpha> \<le> 1"
    and s: "lpf_s_f32 m = Finite ss sa" and sa: "0 \<le> sa" "sa \<le> 2 ^ 100"
    and t: "target = Finite ts tb" and tb: "0 \<le> tb" "tb \<le> 2 ^ 100"
  shows "lpf_s_f32 (SmoothMoverLPF_update_f32 k m target)
           = fadd (fmul (lpf_s_f32 m) (fsub (f32_of_real 1) (kLPFSlewRate_f32 k)))
                  (fmul target (kLPFSlewRate_f32 k))
       \<and> (\<exists>sg r. lpf_s_f32 (SmoothMoverLPF_update_f32 k m target) = Finite sg r \<and> 0 \<le> r
             \<and> \<bar>signed sg r - signed ts tb\<bar>
                 \<le> (1 - \<alpha>) * \<bar>signed ss sa - signed ts tb\<bar> + max sa tb / 2 ^ 20 + 1 / 2 ^ 148)"
proof -
  define u :: real where "u = 1 / 2 ^ 24"
  define \<eta> :: real where "\<eta> = 1 / 2 ^ 150"
  define M where "M = max sa tb"
  define S where "S = signed ss sa"
  define T where "T = signed ts tb"
  have u: "0 < u" "u \<le> 1/4" and \<eta>: "0 < \<eta>" "\<eta> \<le> u" "\<eta> \<le> 1/4"
    by (simp_all add: u_def \<eta>_def)
  have M: "0 \<le> M" "sa \<le> M" "tb \<le> M" "M \<le> 2 ^ 100"
    using sa tb by (simp_all add: M_def)
  have Mu: "0 \<le> M * u" using M(1) u(1) by simp
  have ueq: "x / 2 ^ 24 = x * u" for x :: real by (simp add: u_def)
  have \<eta>eq: "1 / 2 ^ 150 = \<eta>" by (simp add: \<eta>_def)
  have absS: "\<bar>S\<bar> = sa" and absT: "\<bar>T\<bar> = tb"
    using sa(1) tb(1) by (simp_all add: S_def T_def signed_abs)

  \<comment> \<open>\<open>1 - k\<close>\<close>
  have "fsub (f32_of_real 1) (Finite False \<alpha>) = fadd (Finite False 1) (Finite True \<alpha>)"
    by (simp add: fsub_def f32_one)
  moreover have "(1::real) + \<alpha> < 2 ^ 127" using \<alpha>(2) by simp
  ultimately obtain cs cr where c: "fsub (f32_of_real 1) (Finite False \<alpha>) = Finite cs cr"
    and cr0: "0 \<le> cr"
    and cerr: "\<bar>signed cs cr - (signed False 1 + signed True \<alpha>)\<bar>
                \<le> \<bar>signed False 1 + signed True \<alpha>\<bar> / 2 ^ 24 + 1 / 2 ^ 150"
    using fadd_error [of 1 \<alpha> False True] \<alpha>(1) by auto
  define C where "C = signed cs cr"
  have one\<alpha>: "signed False 1 + signed True \<alpha> = 1 - \<alpha>" by (simp add: signed_def)
  have "(1 - \<alpha>) * u \<le> 1 * u" using \<alpha>(1) u(1) by (intro mult_right_mono) simp_all
  moreover have "\<bar>C - (1 - \<alpha>)\<bar> \<le> (1 - \<alpha>) * u + \<eta>"
    using cerr \<alpha>(2) unfolding one\<alpha> ueq \<eta>eq C_def by simp
  ultimately have Cerr: "\<bar>C - (1 - \<alpha>)\<bar> \<le> u + \<eta>" by linarith
  have absC: "\<bar>C\<bar> = cr" using cr0 by (simp add: C_def signed_abs)
  have cr2: "cr \<le> 2"
  proof -
    have "\<bar>C\<bar> \<le> \<bar>C - (1 - \<alpha>)\<bar> + \<bar>1 - \<alpha>\<bar>" by linarith
    with Cerr \<alpha> u(2) \<eta>(3) absC show ?thesis by linarith
  qed

  \<comment> \<open>\<open>s * (1 - k)\<close>\<close>
  have sacr: "sa * cr \<le> M * 2" using M cr0 cr2 sa(1) by (intro mult_mono) simp_all
  then have "sa * cr \<le> 2 ^ 100 * 2" using M(4) by linarith
  then have "sa * cr < 2 ^ 127" by simp
  from fmul_error [OF sa(1) cr0 this, of ss cs]
  obtain pr where p: "fmul (Finite ss sa) (Finite cs cr) = Finite (ss \<noteq> cs) pr"
    and pr0: "0 \<le> pr" and perr: "\<bar>pr - sa * cr\<bar> \<le> sa * cr / 2 ^ 24 + 1 / 2 ^ 150"
    by blast
  define P where "P = signed (ss \<noteq> cs) pr"
  have "sa * cr * u \<le> M * 2 * u" using sacr u(1) by (intro mult_right_mono) simp_all
  with perr have perr': "\<bar>pr - sa * cr\<bar> \<le> 2 * (M * u) + \<eta>"
    unfolding ueq \<eta>eq by linarith
  have Perr: "\<bar>P - S * C\<bar> \<le> 2 * (M * u) + \<eta>"
  proof -
    have "S * C = signed (ss \<noteq> cs) (sa * cr)" by (simp add: S_def C_def signed_mult)
    then have "\<bar>P - S * C\<bar> = \<bar>pr - sa * cr\<bar>"
      using pr0 sa(1) cr0 by (simp add: P_def signed_abs_diff)
    with perr' show ?thesis by simp
  qed
  have absP: "\<bar>P\<bar> = pr" using pr0 by (simp add: P_def signed_abs)
  have prb: "pr \<le> 2 * M + 2 * (M * u) + \<eta>"
    using perr' sacr by linarith

  \<comment> \<open>\<open>target * k\<close>\<close>
  have tb\<alpha>: "tb * \<alpha> \<le> M * 1" using M tb(1) \<alpha> by (intro mult_mono) simp_all
  then have "tb * \<alpha> \<le> 2 ^ 100" using M(4) by linarith
  then have "tb * \<alpha> < 2 ^ 127" by simp
  from fmul_error [OF tb(1) _ this, of ts False] \<alpha>(1)
  obtain qr where q: "fmul (Finite ts tb) (Finite False \<alpha>) = Finite (ts \<noteq> False) qr"
    and qr0: "0 \<le> qr" and qerr: "\<bar>qr - tb * \<alpha>\<bar> \<le> tb * \<alpha> / 2 ^ 24 + 1 / 2 ^ 150"
    by auto
  define Q where "Q = signed (ts \<noteq> False) qr"
  have "tb * \<alpha> * u \<le> M * 1 * u" using tb\<alpha> u(1) by (intro mult_right_mono) simp_all
  with qerr have qerr': "\<bar>qr - tb * \<alpha>\<bar> \<le> M * u + \<eta>"
    unfolding ueq \<eta>eq by linarith
  have Qerr: "\<bar>Q - T * \<alpha>\<bar> \<le> M * u + \<eta>"
  proof -
    have "T * \<alpha> = signed (ts \<noteq> False) (tb * \<alpha>)"
      using signed_mult [of ts tb False \<alpha>] by (simp add: T_def signed_def)
    then have "\<bar>Q - T * \<alpha>\<bar> = \<bar>qr - tb * \<alpha>\<bar>"
      using qr0 tb(1) \<alpha>(1) by (simp add: Q_def signed_abs_diff)
    with qerr' show ?thesis by simp
  qed
  have absQ: "\<bar>Q\<bar> = qr" using qr0 by (simp add: Q_def signed_abs)
  have qrb: "qr \<le> M + M * u + \<eta>"
    using qerr' tb\<alpha> by linarith

  \<comment> \<open>the sum\<close>
  have "M * u \<le> M * (1/4)" using M(1) u(2) by (intro mult_left_mono) simp_all
  then have Mu4: "M * u \<le> M / 4" by simp
  have sum_b: "pr + qr \<le> 4 * M + 2 * \<eta>"
    using prb qrb Mu4 M(1) by linarith
  then have "pr + qr \<le> 4 * 2 ^ 100 + 2 * (1/4)" using M(4) \<eta>(3) by linarith
  then have "pr + qr < 2 ^ 127" by simp
  from fadd_error [OF pr0 qr0 this, of "ss \<noteq> cs" "ts \<noteq> False"]
  obtain sg r where res: "fadd (Finite (ss \<noteq> cs) pr) (Finite (ts \<noteq> False) qr) = Finite sg r"
    and r0: "0 \<le> r"
    and rerr: "\<bar>signed sg r - (P + Q)\<bar> \<le> \<bar>P + Q\<bar> / 2 ^ 24 + 1 / 2 ^ 150"
    unfolding P_def Q_def by blast
  define V where "V = signed sg r"
  have "\<bar>P + Q\<bar> \<le> 4 * M + 2 * \<eta>" using absP absQ sum_b by linarith
  then have "\<bar>P + Q\<bar> * u \<le> (4 * M + 2 * \<eta>) * u" using u(1) by (intro mult_right_mono) simp_all
  also have "\<dots> = 4 * (M * u) + 2 * (\<eta> * u)" by (simp add: algebra_simps)
  also have "\<eta> * u \<le> \<eta> * (1/4)" using \<eta>(1) u(2) by (intro mult_left_mono) simp_all
  finally have "\<bar>P + Q\<bar> * u \<le> 4 * (M * u) + \<eta>" using \<eta>(1) by simp
  with rerr have Verr: "\<bar>V - (P + Q)\<bar> \<le> 4 * (M * u) + 2 * \<eta>"
    unfolding ueq \<eta>eq V_def by linarith

  \<comment> \<open>against the exact update\<close>
  have SC: "\<bar>S * (C - (1 - \<alpha>))\<bar> \<le> M * u + M * \<eta>"
  proof -
    have "\<bar>S * (C - (1 - \<alpha>))\<bar> = sa * \<bar>C - (1 - \<alpha>)\<bar>" by (simp add: abs_mult absS)
    also have "\<dots> \<le> M * (u + \<eta>)" using M Cerr sa(1) by (intro mult_mono) simp_all
    finally show ?thesis by (simp add: algebra_simps)
  qed
  have "M * \<eta> \<le> M * u" using M(1) \<eta>(2) by (intro mult_left_mono) simp_all
  with SC have SC': "\<bar>S * (C - (1 - \<alpha>))\<bar> \<le> 2 * (M * u)" by linarith
  have split: "V - (S * (1 - \<alpha>) + T * \<alpha>)
      = (V - (P + Q)) + (P - S * C) + S * (C - (1 - \<alpha>)) + (Q - T * \<alpha>)"
    by (simp add: algebra_simps)
  have ideal: "\<bar>V - (S * (1 - \<alpha>) + T * \<alpha>)\<bar> \<le> 9 * (M * u) + 4 * \<eta>"
    unfolding split using Verr Perr SC' Qerr by linarith
  have "S * (1 - \<alpha>) + T * \<alpha> - T = (1 - \<alpha>) * (S - T)" by (simp add: algebra_simps)
  then have "\<bar>S * (1 - \<alpha>) + T * \<alpha> - T\<bar> = (1 - \<alpha>) * \<bar>S - T\<bar>"
    using \<alpha>(2) by (simp add: abs_mult)
  with ideal have "\<bar>V - T\<bar> \<le> (1 - \<alpha>) * \<bar>S - T\<bar> + 9 * (M * u) + 4 * \<eta>" by linarith
  moreover have "9 * (M * u) + 4 * \<eta> \<le> M / 2 ^ 20 + 1 / 2 ^ 148"
  proof -
    have "9 * (M * u) \<le> 16 * (M * u)" using Mu by simp
    also have "16 * (M * u) = M / 2 ^ 20" by (simp add: u_def)
    finally have "9 * (M * u) \<le> M / 2 ^ 20" .
    moreover have "4 * \<eta> = 1 / 2 ^ 148" by (simp add: \<eta>_def)
    ultimately show ?thesis by linarith
  qed
  ultimately have final: "\<bar>V - T\<bar> \<le> (1 - \<alpha>) * \<bar>S - T\<bar> + M / 2 ^ 20 + 1 / 2 ^ 148"
    by linarith

  have upd: "lpf_s_f32 (SmoothMoverLPF_update_f32 k m target)
           = fadd (fmul (lpf_s_f32 m) (fsub (f32_of_real 1) (kLPFSlewRate_f32 k)))
                  (fmul target (kLPFSlewRate_f32 k))"
    by (simp add: SmoothMoverLPF_update_f32_def)
  have "fadd (fmul (lpf_s_f32 m) (fsub (f32_of_real 1) (kLPFSlewRate_f32 k)))
             (fmul target (kLPFSlewRate_f32 k)) = Finite sg r"
    by (simp only: k s t c p q res)
  then have "lpf_s_f32 (SmoothMoverLPF_update_f32 k m target) = Finite sg r"
    by (simp only: upd)
  with final r0 upd show ?thesis
    unfolding V_def T_def S_def M_def by blast
qed

theorem lpf_f32_approach_up_to_rounding_witness:
  "\<exists>sg r. lpf_s_f32 (SmoothMoverLPF_update_f32
              \<lparr>kLPFSlewRate_f32 = Finite False (13421773/134217728),
               kBoundedMaxSlew_f32 = Finite False 1, kBoundedMaxSlewAccel_f32 = Finite False 1\<rparr>
              \<lparr>lpf_s_f32 = Finite False (13841203/4194304)\<rparr>
              (Finite False (13841203/4194304))) = Finite sg r
      \<and> \<bar>signed sg r - 13841203/4194304\<bar> \<le> (13841203/4194304) / 2 ^ 20 + 1 / 2 ^ 148"
proof -
  let ?k = "\<lparr>kLPFSlewRate_f32 = Finite False (13421773/134217728),
             kBoundedMaxSlew_f32 = Finite False 1, kBoundedMaxSlewAccel_f32 = Finite False 1\<rparr>"
  let ?m = "\<lparr>lpf_s_f32 = Finite False (13841203/4194304)\<rparr>"
  have "\<exists>sg r. lpf_s_f32 (SmoothMoverLPF_update_f32 ?k ?m (Finite False (13841203/4194304)))
            = Finite sg r \<and> 0 \<le> r
          \<and> \<bar>signed sg r - signed False (13841203/4194304)\<bar>
              \<le> (1 - 13421773/134217728)
                  * \<bar>signed False (13841203/4194304) - signed False (13841203/4194304)\<bar>
                + max (13841203/4194304) (13841203/4194304) / 2 ^ 20 + 1 / 2 ^ 148"
    by (rule lpf_f32_approach_up_to_rounding [THEN conjunct2]) simp_all
  then obtain sg r where
    "lpf_s_f32 (SmoothMoverLPF_update_f32 ?k ?m (Finite False (13841203/4194304))) = Finite sg r"
    and "\<bar>signed sg r - signed False (13841203/4194304)\<bar>
              \<le> (1 - 13421773/134217728)
                  * \<bar>signed False (13841203/4194304) - signed False (13841203/4194304)\<bar>
                + max (13841203/4194304) (13841203/4194304) / 2 ^ 20 + 1 / 2 ^ 148"
    by blast
  moreover have "signed False (13841203/4194304) = 13841203/4194304"
    by (simp add: signed_def)
  ultimately have "lpf_s_f32 (SmoothMoverLPF_update_f32 ?k ?m (Finite False (13841203/4194304)))
            = Finite sg r
      \<and> \<bar>signed sg r - 13841203/4194304\<bar> \<le> (13841203/4194304) / 2 ^ 20 + 1 / 2 ^ 148"
    by (simp only: diff_self abs_zero mult_zero_right add_0 max.idem)
  then show ?thesis by blast
qed

subsection \<open>scale on binary32\<close>

lemma sqrt_13996800:
  "fsqrt (Finite False 13996800) = Finite False (15324077/4096)"
proof -
  have "f32_round False (sqrt 13996800) = Finite False (of_int 15324077 * 2 powi (11 - 23))"
    by (rule f32_round_sqrt) (simp_all add: power2_eq_square)
  then show ?thesis by simp
qed

lemma scale_f32_example_aspect:
  "scale_f32
     (SmoothMovingRect_init_f32
        \<lparr>rect_x = f32_of_real 0, rect_y = f32_of_real 0,
         rect_width = f32_of_real 1440, rect_height = f32_of_real 1080\<rparr>
        (fdiv (f32_of_real 640) (f32_of_real 480)) (f32_of_real 0) (f32_of_real 0))
     (f32_of_real 12) (f32_of_real 0)
   = \<lparr>rect_x = Finite False (11796475/16384), rect_y = Finite False (4423679/4096),
      rect_width = Finite False (5/8192), rect_height = Finite False (1/4096)\<rparr>"
  by (simp add: scale_f32_def scale_start_f32_def shrink_left_f32_def shrink_top_f32_def
      shrink_right_f32_def shrink_bottom_f32_def SmoothMovingRect_init_f32_def
      SmoothMoverCompose_init_f32_def SmoothMoverCompose_value_f32_def
      SmoothMoverLPF_init_f32_def SmoothMoverLPF_value_f32_def
      SmoothMoverBoundedAccel_init_f32_def f32_eval sqrt_13996800 del: fsqrt.simps)

text \<open>
  C2. The claim: the rectangle \<open>scale\<close> returns has \<open>width = A * height\<close> whenever it is not
  degenerate. The shrinking blocks subtract from the width and from the height amounts
  that are rounded separately, and what is left after the subtraction need not be in
  proportion. The controller of \<^verbatim>\<open>main\<close>, on the bounds \<open>(0, 0, 1440, 1080)\<close> with the
  aspect \<^verbatim>\<open>640.0f / 480\<close> \<open>= 11184811 / 8388608\<close>, asked for \<open>scale 12 0\<close> before any
  \<open>observe\<close>, runs the left and the bottom block and returns a rectangle of width
  \<open>5 / 8192\<close> and height \<open>1 / 4096\<close>: both positive, and the width is \<open>5/2\<close> of the height.
\<close>

theorem scale_f32_loses_aspect:
  "fdiv (f32_of_real 640) (f32_of_real 480) = Finite False (11184811/8388608)
   \<and> scale_f32
        (SmoothMovingRect_init_f32
           \<lparr>rect_x = f32_of_real 0, rect_y = f32_of_real 0,
            rect_width = f32_of_real 1440, rect_height = f32_of_real 1080\<rparr>
           (fdiv (f32_of_real 640) (f32_of_real 480)) (f32_of_real 0) (f32_of_real 0))
        (f32_of_real 12) (f32_of_real 0)
      = \<lparr>rect_x = Finite False (11796475/16384), rect_y = Finite False (4423679/4096),
         rect_width = Finite False (5/8192), rect_height = Finite False (1/4096)\<rparr>
   \<and> \<not> degenerate_f32
          \<lparr>rect_x = Finite False (11796475/16384), rect_y = Finite False (4423679/4096),
           rect_width = Finite False (5/8192), rect_height = Finite False (1/4096)\<rparr>
   \<and> fmul (fdiv (f32_of_real 640) (f32_of_real 480)) (Finite False (1/4096))
      = Finite False (11184811/34359738368)
   \<and> Finite False (5/8192) \<noteq> Finite False (11184811/34359738368)"
proof -
  have a: "fdiv (f32_of_real 640) (f32_of_real 480) = Finite False (11184811/8388608)"
    by (simp add: f32_eval)
  have d: "\<not> degenerate_f32
          \<lparr>rect_x = Finite False (11796475/16384), rect_y = Finite False (4423679/4096),
           rect_width = Finite False (5/8192), rect_height = Finite False (1/4096)\<rparr>"
    by (simp add: degenerate_f32_def f32_eval)
  have m: "fmul (Finite False (11184811/8388608)) (Finite False (1/4096))
      = Finite False (11184811/34359738368)"
    by (simp add: f32_eval)
  show ?thesis
    using scale_f32_example_aspect d m by (simp only: a) simp
qed

text \<open>
  C7, as amended. \<open>scale\<close> has no result of its own for a degenerate crop: for every state
  and every argument, NaN and a zero aspect included, it returns the rectangle the four
  blocks leave. It agrees with a crop that signals "no valid frame" exactly when the
  width and the height are positive; when one of them is not, it returns the rectangle
  where the other signals.
\<close>

theorem scale_f32_returns_every_rect:
  "scale_f32 c factor verticalPositioning
     = shrink_bottom_f32 (smr_bounds_f32 c) (smr_aspect_f32 c)
         (shrink_right_f32 (smr_bounds_f32 c) (smr_aspect_f32 c)
           (shrink_top_f32 (smr_aspect_f32 c)
             (shrink_left_f32 (smr_aspect_f32 c)
               (scale_start_f32 c factor verticalPositioning))))
   \<and> (currentCrop_spec c factor verticalPositioning = Inr (scale_f32 c factor verticalPositioning))
       = (\<not> degenerate_f32 (scale_f32 c factor verticalPositioning))
   \<and> (currentCrop_spec c factor verticalPositioning = Inl NoValidFrame)
       = degenerate_f32 (scale_f32 c factor verticalPositioning)"
  by (simp add: scale_f32_def currentCrop_spec_def Let_def)

theorem scale_f32_returns_every_rect_witness:
  "currentCrop_spec
     (SmoothMovingRect_init_f32
        \<lparr>rect_x = f32_of_real 0, rect_y = f32_of_real 0,
         rect_width = f32_of_real 1, rect_height = f32_of_real 1\<rparr>
        (f32_of_real 1) (f32_of_real 0) (f32_of_real 0))
     (f32_of_real 4) (f32_of_real (1/2)) = Inl NoValidFrame
   \<and> scale_f32
     (SmoothMovingRect_init_f32
        \<lparr>rect_x = f32_of_real 0, rect_y = f32_of_real 0,
         rect_width = f32_of_real 1, rect_height = f32_of_real 1\<rparr>
        (f32_of_real 1) (f32_of_real 0) (f32_of_real 0))
     (f32_of_real 4) (f32_of_real (1/2))
   = \<lparr>rect_x = f32_of_real 0, rect_y = f32_of_real 0,
      rect_width = f32_of_real 0, rect_height = f32_of_real 0\<rparr>"
proof -
  have "degenerate_f32 \<lparr>rect_x = f32_of_real 0, rect_y = f32_of_real 0,
      rect_width = f32_of_real 0, rect_height = f32_of_real 0\<rparr>"
    by (simp add: degenerate_f32_def f32_eval)
  then show ?thesis
    using scale_f32_returns_every_rect
      [of "SmoothMovingRect_init_f32
        \<lparr>rect_x = f32_of_real 0, rect_y = f32_of_real 0,
         rect_width = f32_of_real 1, rect_height = f32_of_real 1\<rparr>
        (f32_of_real 1) (f32_of_real 0) (f32_of_real 0)" "f32_of_real 4" "f32_of_real (1/2)"]
    by (simp only: scale_f32_example_degenerate)
qed

end
